theory Spec2Isabelle
  imports Complex_Main
begin

section \<open>Python values handled by the client\<close>

text \<open>
  The client of \<^verbatim>\<open>coinut_api.py\<close> moves JSON-compatible Python values around:
  \<^verbatim>\<open>None\<close>, booleans, unbounded integers, strings, lists and dictionaries with
  string keys. A dictionary is an association list in insertion order with
  pairwise distinct keys, which is the order \<^verbatim>\<open>json.dumps\<close> writes it in.
  Strings are lists of characters, each a code point below 256; the string literals of
  the source are ASCII. The source is written for Python 2: its docstrings use the
  \<^verbatim>\<open>print\<close> statement, and it hands the strings it holds to \<^verbatim>\<open>hmac.new\<close>.
  Floating-point numbers reach the client only as the \<^verbatim>\<open>qty\<close> and \<^verbatim>\<open>price\<close>
  arguments of \<^verbatim>\<open>create_new_order\<close>, which turns them into strings at once;
  they have a type of their own below. The arguments of the operations have the types
  that the docstrings of the source give them.
\<close>

datatype json =
    JNull
  | JBool bool
  | JInt int
  | JStr string
  | JList "json list"
  | JDict "(string \<times> json) list"

type_synonym dict = "(string \<times> json) list"

text \<open>\<^verbatim>\<open>d[k] = v\<close>: an existing key keeps its place, a new key goes to the end.\<close>

fun dict_setitem :: "dict \<Rightarrow> string \<Rightarrow> json \<Rightarrow> dict" where
  "dict_setitem [] k v = [(k, v)]"
| "dict_setitem ((k', v') # d) k v =
     (if k' = k then (k, v) # d else (k', v') # dict_setitem d k v)"

definition dict_keys :: "dict \<Rightarrow> string list" where
  "dict_keys d = map fst d"

definition dict_get :: "dict \<Rightarrow> string \<Rightarrow> json option" where
  "dict_get d k = map_of d k"

text \<open>The invariant of a Python dictionary: no key occurs twice.\<close>

definition wf_dict :: "dict \<Rightarrow> bool" where
  "wf_dict d = distinct (dict_keys d)"

section \<open>Floating-point arguments and the format \<^verbatim>\<open>"%.8f"\<close>\<close>

text \<open>
  A Python float is an IEEE double: a signed binary fraction \<open>(-1)\<^sup>s \<cdot> m \<cdot> 2\<^sup>e\<close>, an
  infinity or a NaN. \<open>Finite s m e\<close> keeps the sign apart from the magnitude, so that
  \<^verbatim>\<open>-0.0\<close> is a value of the type.
\<close>

datatype pyfloat =
    Finite bool nat int
  | PosInf
  | NegInf
  | NaN

fun is_finite :: "pyfloat \<Rightarrow> bool" where
  "is_finite (Finite s m e) = True"
| "is_finite PosInf = False"
| "is_finite NegInf = False"
| "is_finite NaN = False"

text \<open>The doubles are the finite values with a 53-bit magnitude and an exponent in range.\<close>

fun is_double :: "pyfloat \<Rightarrow> bool" where
  "is_double (Finite s m e) = (m < 2 ^ 53 \<and> - 1074 \<le> e \<and> e \<le> 971)"
| "is_double PosInf = True"
| "is_double NegInf = True"
| "is_double NaN = True"

text \<open>The exact value of a finite float, as a rational number; the others have none.\<close>

definition magnitude :: "nat \<Rightarrow> int \<Rightarrow> rat" where
  "magnitude m e =
     (if 0 \<le> e then of_nat (m * 2 ^ nat e) else of_nat m / of_nat (2 ^ nat (- e)))"

fun float_value :: "pyfloat \<Rightarrow> rat option" where
  "float_value (Finite s m e) = Some (if s then - magnitude m e else magnitude m e)"
| "float_value PosInf = None"
| "float_value NegInf = None"
| "float_value NaN = None"

text \<open>Decimal digits of a natural number, most significant first (\<^verbatim>\<open>str\<close> of an int).\<close>

definition digit_char :: "nat \<Rightarrow> char" where
  "digit_char d = ''0123456789'' ! d"

fun show_nat :: "nat \<Rightarrow> string" where
  "show_nat n = (if n < 10 then [digit_char n] else show_nat (n div 10) @ [digit_char (n mod 10)])"

declare show_nat.simps [simp del]

definition str_int :: "int \<Rightarrow> string" where
  "str_int i = (if i < 0 then CHR ''-'' # show_nat (nat (- i)) else show_nat (nat i))"

text \<open>
  \<^verbatim>\<open>"%.8f" % x\<close> rounds the exact value of the float to the nearest multiple of
  \<open>10\<^sup>-\<^sup>8\<close>, ties to the even neighbour, and writes it in fixed-point notation with the
  sign of the float. \<open>round_half_even a d\<close> is the integer nearest to \<open>a / d\<close>.
\<close>

definition round_half_even :: "nat \<Rightarrow> nat \<Rightarrow> nat" where
  "round_half_even a d =
     (let q = a div d; r = a mod d in
      if 2 * r < d then q
      else if d < 2 * r then q + 1
      else if even q then q else q + 1)"

definition scaled8 :: "nat \<Rightarrow> int \<Rightarrow> nat" where
  "scaled8 m e =
     (if 0 \<le> e then m * 10 ^ 8 * 2 ^ nat e
      else round_half_even (m * 10 ^ 8) (2 ^ nat (- e)))"

definition zero_pad :: "nat \<Rightarrow> string \<Rightarrow> string" where
  "zero_pad w s = replicate (w - length s) CHR ''0'' @ s"

definition fixed8 :: "nat \<Rightarrow> string" where
  "fixed8 n = show_nat (n div 10 ^ 8) @ ''.'' @ zero_pad 8 (show_nat (n mod 10 ^ 8))"

fun fmt8f :: "pyfloat \<Rightarrow> string" where
  "fmt8f (Finite s m e) = (if s then ''-'' else []) @ fixed8 (scaled8 m e)"
| "fmt8f PosInf = ''inf''"
| "fmt8f NegInf = ''-inf''"
| "fmt8f NaN = ''nan''"

section \<open>Serialisation: \<^verbatim>\<open>json.dumps\<close>\<close>

text \<open>
  \<^verbatim>\<open>json.dumps\<close> with its default arguments: the separators are \<^verbatim>\<open>", "\<close> and
  \<^verbatim>\<open>": "\<close>, dictionaries are written in their own order, and every character outside
  the printable ASCII range, the quote and the backslash are escaped
  (\<^verbatim>\<open>ensure_ascii\<close>). A character of a string is a code point below 256.
\<close>

definition hex_char :: "nat \<Rightarrow> char" where
  "hex_char d = ''0123456789abcdef'' ! d"

definition escape_char :: "char \<Rightarrow> string" where
  "escape_char c =
     (if c = CHR 0x5C then [CHR 0x5C, CHR 0x5C]
      else if c = CHR 0x22 then [CHR 0x5C, CHR 0x22]
      else if 32 \<le> (of_char c :: nat) \<and> (of_char c :: nat) \<le> 126 then [c]
      else if c = CHR 0x08 then [CHR 0x5C, CHR ''b'']
      else if c = CHR 0x0C then [CHR 0x5C, CHR ''f'']
      else if c = CHR 0x0A then [CHR 0x5C, CHR ''n'']
      else if c = CHR 0x0D then [CHR 0x5C, CHR ''r'']
      else if c = CHR 0x09 then [CHR 0x5C, CHR ''t'']
      else [CHR 0x5C, CHR ''u'', CHR ''0'', CHR ''0'',
            hex_char (of_char c div 16), hex_char (of_char c mod 16)])"

definition dumps_str :: "string \<Rightarrow> string" where
  "dumps_str s = CHR 0x22 # concat (map escape_char s) @ [CHR 0x22]"

fun join_sep :: "string \<Rightarrow> string list \<Rightarrow> string" where
  "join_sep sep [] = []"
| "join_sep sep [x] = x"
| "join_sep sep (x # y # ys) = x @ sep @ join_sep sep (y # ys)"

primrec json_dumps :: "json \<Rightarrow> string" where
  "json_dumps JNull = ''null''"
| "json_dumps (JBool b) = (if b then ''true'' else ''false'')"
| "json_dumps (JInt i) = str_int i"
| "json_dumps (JStr s) = dumps_str s"
| "json_dumps (JList xs) = ''['' @ join_sep '', '' (map json_dumps xs) @ '']''"
| "json_dumps (JDict kvs) =
     ''{'' @ join_sep '', ''
              (map (\<lambda>(k, t). dumps_str k @ '': '' @ t) (map (map_prod id json_dumps) kvs))
       @ ''}''"

section \<open>Subscripting a parsed response\<close>

datatype error = TransportError | ValueError | KeyError | IndexError | TypeError

text \<open>
  \<^verbatim>\<open>v[k]\<close> with a string \<open>k\<close>: a dictionary looks the key up, a list or a string
  wants an integer index, nothing else can be subscripted.
\<close>

fun getitem_str :: "json \<Rightarrow> string \<Rightarrow> error + json" where
  "getitem_str (JDict d) k = (case dict_get d k of None \<Rightarrow> Inl KeyError | Some v \<Rightarrow> Inr v)"
| "getitem_str v k = Inl TypeError"

text \<open>
  \<^verbatim>\<open>v[i]\<close> with an integer \<open>i\<close>: a negative index counts from the end; the keys of
  a parsed JSON object are strings, so an integer is never among them.
\<close>

definition list_index :: "'a list \<Rightarrow> int \<Rightarrow> error + 'a" where
  "list_index xs i =
     (if 0 \<le> i \<and> i < int (length xs) then Inr (xs ! nat i)
      else if i < 0 \<and> - int (length xs) \<le> i then Inr (xs ! nat (int (length xs) + i))
      else Inl IndexError)"

fun getitem_int :: "json \<Rightarrow> int \<Rightarrow> error + json" where
  "getitem_int (JList xs) i = list_index xs i"
| "getitem_int (JStr s) i = map_sum id (\<lambda>c. JStr [c]) (list_index s i)"
| "getitem_int (JDict d) i = Inl KeyError"
| "getitem_int v i = Inl TypeError"

definition bind_err :: "error + 'a \<Rightarrow> ('a \<Rightarrow> error + 'b) \<Rightarrow> error + 'b" where
  "bind_err r f = (case r of Inl e \<Rightarrow> Inl e | Inr v \<Rightarrow> f v)"

section \<open>The world around the client\<close>

text \<open>
  What the client touches outside its own arguments:
  \<^item> the process-wide random generator of \<^verbatim>\<open>random.randint\<close>: the sequence of its raw
    draws and the number of draws used so far;
  \<^item> the dictionary objects, by address. Address \<open>default_content\<close> holds the object
    that Python creates once for the default \<^verbatim>\<open>content = {}\<close> of \<^verbatim>\<open>request\<close>;
  \<^item> the requests posted so far, and the server, which answers the last request of a history;
  \<^item> \<^verbatim>\<open>hmac.new(key, msg, hashlib.sha256).digest()\<close> of the Python library.
\<close>

record http_request =
  url :: string
  headers :: "(string \<times> string) list"
  data :: string
  timeout :: nat

datatype reply = Transport_failure | Not_json | Json_body json

record world =
  rand_draws :: "nat \<Rightarrow> nat"
  rand_used :: nat
  heap :: "nat \<Rightarrow> dict"
  next_addr :: nat
  sent :: "http_request list"
  server :: "http_request list \<Rightarrow> reply"
  hmac_sha256 :: "string \<Rightarrow> string \<Rightarrow> string"

definition default_content :: nat where
  "default_content = 0"

text \<open>The world when the module has just been imported: the default object is empty.\<close>

definition init_world ::
  "(nat \<Rightarrow> nat) \<Rightarrow> (http_request list \<Rightarrow> reply) \<Rightarrow> (string \<Rightarrow> string \<Rightarrow> string) \<Rightarrow> world" where
  "init_world draws srv mac =
     \<lparr>rand_draws = draws, rand_used = 0, heap = (\<lambda>a. []), next_addr = 1,
      sent = [], server = srv, hmac_sha256 = mac\<rparr>"

definition randint :: "int \<Rightarrow> int \<Rightarrow> world \<Rightarrow> int \<times> world" where
  "randint a b w =
     (a + int (rand_draws w (rand_used w) mod nat (b - a + 1)),
      w\<lparr>rand_used := Suc (rand_used w)\<rparr>)"

text \<open>A dictionary display \<^verbatim>\<open>{...}\<close> creates a new object.\<close>

definition new_dict :: "dict \<Rightarrow> world \<Rightarrow> nat \<times> world" where
  "new_dict d w =
     (next_addr w, w\<lparr>heap := (heap w)(next_addr w := d), next_addr := Suc (next_addr w)\<rparr>)"

text \<open>\<^verbatim>\<open>content[k] = v\<close> on the object at address \<open>a\<close>.\<close>

definition store_item :: "nat \<Rightarrow> string \<Rightarrow> json \<Rightarrow> world \<Rightarrow> world" where
  "store_item a k v w = w\<lparr>heap := (heap w)(a := dict_setitem (heap w a) k v)\<rparr>"

text \<open>
  \<^verbatim>\<open>requests.post(url, headers=headers, data=content, timeout=5)\<close> followed by
  \<^verbatim>\<open>response.json()\<close>: the request goes out, and the call raises when the transport
  fails or the body of the response is not JSON.
\<close>

definition post :: "http_request \<Rightarrow> world \<Rightarrow> (error + json) \<times> world" where
  "post rq w =
     (let w' = w\<lparr>sent := sent w @ [rq]\<rparr>
      in (case server w (sent w') of
            Transport_failure \<Rightarrow> Inl TransportError
          | Not_json \<Rightarrow> Inl ValueError
          | Json_body v \<Rightarrow> Inr v, w'))"

text \<open>\<^verbatim>\<open>.hexdigest()\<close>: two lowercase hexadecimal digits for each byte of the digest.\<close>

definition hexdigest :: "string \<Rightarrow> string" where
  "hexdigest bs =
     concat (map (\<lambda>c. [hex_char (of_char c div 16), hex_char (of_char c mod 16)]) bs)"

text \<open>Reading the digits back: the value of a lowercase hexadecimal digit, and the bytes.\<close>

definition hex_val :: "char \<Rightarrow> nat" where
  "hex_val c = length (takeWhile (\<lambda>x. x \<noteq> c) ''0123456789abcdef'')"

fun unhexlify :: "string \<Rightarrow> string" where
  "unhexlify (h # l # s) = char_of (16 * hex_val h + hex_val l) # unhexlify s"
| "unhexlify s = []"

section \<open>The client\<close>

record client =
  user :: "string option"
  api_key :: "string option"

definition CoinutAPI :: "string option \<Rightarrow> string option \<Rightarrow> client" where
  "CoinutAPI u k = \<lparr>user = u, api_key = k\<rparr>"

text \<open>
  \<^verbatim>\<open>
  def request(self, api, content = {}):
      url = 'https://api.coinut.com'
      content["request"] = api
      content["nonce"] = random.randint(1, 4294967290)
      content = json.dumps(content)
      headers = {}
      if self.api_key is not None and self.user is not None:
          sig = hmac.new(self.api_key, msg=content,
                         digestmod=hashlib.sha256).hexdigest()
          headers = {'X-USER': self.user, "X-SIGNATURE": sig}
      response = requests.post(url, headers=headers, data=content, timeout=5)
      return response.json()
  \<close>
  The argument \<open>content\<close> is the address of a dictionary object; when it is omitted,
  it is the address of the default object.
\<close>

definition request :: "client \<Rightarrow> string \<Rightarrow> nat option \<Rightarrow> world \<Rightarrow> (error + json) \<times> world" where
  "request self api content w =
     (let a = (case content of None \<Rightarrow> default_content | Some a \<Rightarrow> a);
          w = store_item a ''request'' (JStr api) w;
          (n, w) = randint 1 4294967290 w;
          w = store_item a ''nonce'' (JInt n) w;
          body = json_dumps (JDict (heap w a));
          hdrs = (case (api_key self, user self) of
                    (Some k, Some u) \<Rightarrow>
                      [(''X-USER'', u), (''X-SIGNATURE'', hexdigest (hmac_sha256 w k body))]
                  | _ \<Rightarrow> [])
      in post \<lparr>url = ''https://api.coinut.com'', headers = hdrs, data = body, timeout = 5\<rparr> w)"

definition get_balance :: "client \<Rightarrow> world \<Rightarrow> (error + json) \<times> world" where
  "get_balance self w = request self ''user_balance'' None w"

text \<open>
  \<^verbatim>\<open>
  result = self.request("inst_list", {'sec_type': 'SPOT'})
  if pair != None:
      return result['SPOT'][pair][0]
  else:
      return result['SPOT']
  \<close>
\<close>

definition get_spot_instruments ::
  "client \<Rightarrow> string option \<Rightarrow> world \<Rightarrow> (error + json) \<times> world" where
  "get_spot_instruments self pair w =
     (let (a, w) = new_dict [(''sec_type'', JStr ''SPOT'')] w;
          (result, w) = request self ''inst_list'' (Some a) w
      in (bind_err result (\<lambda>result.
            case pair of
              Some p \<Rightarrow>
                bind_err (getitem_str result ''SPOT'') (\<lambda>spot.
                bind_err (getitem_str spot p) (\<lambda>insts. getitem_int insts 0))
            | None \<Rightarrow> getitem_str result ''SPOT''), w))"

definition get_spot_inst_id :: "client \<Rightarrow> string \<Rightarrow> world \<Rightarrow> (error + json) \<times> world" where
  "get_spot_inst_id self pair w =
     (let (info, w) = get_spot_instruments self (Some pair) w
      in (bind_err info (\<lambda>info. getitem_str info ''inst_id''), w))"

definition get_inst_tick :: "client \<Rightarrow> int \<Rightarrow> world \<Rightarrow> (error + json) \<times> world" where
  "get_inst_tick self inst_id w =
     (let (a, w) = new_dict [(''inst_id'', JInt inst_id)] w
      in request self ''inst_tick'' (Some a) w)"

definition get_orderbook :: "client \<Rightarrow> int \<Rightarrow> world \<Rightarrow> (error + json) \<times> world" where
  "get_orderbook self inst_id w =
     (let (a, w) = new_dict [(''inst_id'', JInt inst_id)] w
      in request self ''inst_order_book'' (Some a) w)"

definition get_open_orders :: "client \<Rightarrow> int \<Rightarrow> world \<Rightarrow> (error + json) \<times> world" where
  "get_open_orders self inst_id w =
     (let (a, w) = new_dict [(''inst_id'', JInt inst_id)] w;
          (result, w) = request self ''user_open_orders'' (Some a) w
      in (bind_err result (\<lambda>result. getitem_str result ''orders''), w))"

text \<open>
  \<^verbatim>\<open>
  order = {'inst_id': inst_id, "side": side, 'qty': "%.8f" % qty}
  if price is not None:
      order['price'] = "%.8f" % price
  if client_ord_id is not None:
      order['client_ord_id'] = client_ord_id
  else:
      order['client_ord_id'] = random.randint(1, 4294967290)
  return order
  \<close>
  The builder does not read \<^verbatim>\<open>self\<close>. It returns the new dictionary; no other
  reference to it exists.
\<close>

definition create_new_order ::
  "int \<Rightarrow> string \<Rightarrow> pyfloat \<Rightarrow> pyfloat option \<Rightarrow> int option \<Rightarrow> world \<Rightarrow> dict \<times> world" where
  "create_new_order inst_id side qty price client_ord_id w =
     (let order = [(''inst_id'', JInt inst_id), (''side'', JStr side),
                   (''qty'', JStr (fmt8f qty))];
          order = (case price of
                     Some p \<Rightarrow> dict_setitem order ''price'' (JStr (fmt8f p))
                   | None \<Rightarrow> order)
      in case client_ord_id of
           Some c \<Rightarrow> (dict_setitem order ''client_ord_id'' (JInt c), w)
         | None \<Rightarrow>
             (let (n, w) = randint 1 4294967290 w
              in (dict_setitem order ''client_ord_id'' (JInt n), w)))"

definition submit_new_order ::
  "client \<Rightarrow> int \<Rightarrow> string \<Rightarrow> pyfloat \<Rightarrow> pyfloat option \<Rightarrow> int option \<Rightarrow> world
     \<Rightarrow> (error + json) \<times> world" where
  "submit_new_order self inst_id side qty price client_ord_id w =
     (let (order, w) = create_new_order inst_id side qty price client_ord_id w;
          (a, w) = new_dict order w
      in request self ''new_order'' (Some a) w)"

definition submit_new_orders :: "client \<Rightarrow> json list \<Rightarrow> world \<Rightarrow> (error + json) \<times> world" where
  "submit_new_orders self ords w =
     (let (a, w) = new_dict [(''orders'', JList ords)] w
      in request self ''new_orders'' (Some a) w)"

definition cancel_order :: "client \<Rightarrow> int \<Rightarrow> int \<Rightarrow> world \<Rightarrow> (error + json) \<times> world" where
  "cancel_order self inst_id order_id w =
     (let (a, w) = new_dict [(''inst_id'', JInt inst_id), (''order_id'', JInt order_id)] w
      in request self ''cancel_order'' (Some a) w)"

text \<open>
  \<^verbatim>\<open>
  ords = [{'inst_id': inst_id, 'order_id': x} for x in order_ids]
  return self.request("cancel_orders", {'entries': ords})
  \<close>
\<close>

definition cancel_orders :: "client \<Rightarrow> int \<Rightarrow> int list \<Rightarrow> world \<Rightarrow> (error + json) \<times> world" where
  "cancel_orders self inst_id order_ids w =
     (let ords = map (\<lambda>x. JDict [(''inst_id'', JInt inst_id), (''order_id'', JInt x)]) order_ids;
          (a, w) = new_dict [(''entries'', JList ords)] w
      in request self ''cancel_orders'' (Some a) w)"

section \<open>Sequences of calls\<close>

text \<open>
  The public operations of a client, the request name each of them passes to
  \<^verbatim>\<open>request\<close> (the builder \<^verbatim>\<open>create_new_order\<close> passes none), and a program that
  calls one after the other on the same client.
\<close>

datatype call =
    Get_balance
  | Get_spot_instruments "string option"
  | Get_spot_inst_id string
  | Get_inst_tick int
  | Get_orderbook int
  | Get_open_orders int
  | Create_new_order int string pyfloat "pyfloat option" "int option"
  | Submit_new_order int string pyfloat "pyfloat option" "int option"
  | Submit_new_orders "json list"
  | Cancel_order int int
  | Cancel_orders int "int list"

fun exec :: "client \<Rightarrow> call \<Rightarrow> world \<Rightarrow> (error + json) \<times> world" where
  "exec self Get_balance w = get_balance self w"
| "exec self (Get_spot_instruments pair) w = get_spot_instruments self pair w"
| "exec self (Get_spot_inst_id pair) w = get_spot_inst_id self pair w"
| "exec self (Get_inst_tick i) w = get_inst_tick self i w"
| "exec self (Get_orderbook i) w = get_orderbook self i w"
| "exec self (Get_open_orders i) w = get_open_orders self i w"
| "exec self (Create_new_order i s q p c) w =
     (let (order, w) = create_new_order i s q p c w in (Inr (JDict order), w))"
| "exec self (Submit_new_order i s q p c) w = submit_new_order self i s q p c w"
| "exec self (Submit_new_orders ords) w = submit_new_orders self ords w"
| "exec self (Cancel_order i x) w = cancel_order self i x w"
| "exec self (Cancel_orders i xs) w = cancel_orders self i xs w"

fun request_name :: "call \<Rightarrow> string option" where
  "request_name Get_balance = Some ''user_balance''"
| "request_name (Get_spot_instruments pair) = Some ''inst_list''"
| "request_name (Get_spot_inst_id pair) = Some ''inst_list''"
| "request_name (Get_inst_tick i) = Some ''inst_tick''"
| "request_name (Get_orderbook i) = Some ''inst_order_book''"
| "request_name (Get_open_orders i) = Some ''user_open_orders''"
| "request_name (Create_new_order i s q p c) = None"
| "request_name (Submit_new_order i s q p c) = Some ''new_order''"
| "request_name (Submit_new_orders ords) = Some ''new_orders''"
| "request_name (Cancel_order i x) = Some ''cancel_order''"
| "request_name (Cancel_orders i xs) = Some ''cancel_orders''"

fun run :: "client \<Rightarrow> call list \<Rightarrow> world \<Rightarrow> world" where
  "run self [] w = w"
| "run self (c # cs) w = run self cs (snd (exec self c w))"

section \<open>The request that a call posts\<close>

text \<open>
  Names for the parts of one call of \<^verbatim>\<open>request\<close>: the address of its content, the
  nonce it draws, the content after the two assignments, the headers and the request
  it posts, and the result it makes of the reply.
\<close>

definition reply_result :: "reply \<Rightarrow> error + json" where
  "reply_result r =
     (case r of Transport_failure \<Rightarrow> Inl TransportError | Not_json \<Rightarrow> Inl ValueError
      | Json_body v \<Rightarrow> Inr v)"

definition content_addr :: "nat option \<Rightarrow> nat" where
  "content_addr content = (case content of None \<Rightarrow> default_content | Some a \<Rightarrow> a)"

definition nonce_of :: "world \<Rightarrow> int" where
  "nonce_of w = fst (randint 1 4294967290 w)"

definition posted_content :: "world \<Rightarrow> nat \<Rightarrow> string \<Rightarrow> dict" where
  "posted_content w a api =
     dict_setitem (dict_setitem (heap w a) ''request'' (JStr api)) ''nonce'' (JInt (nonce_of w))"

definition auth_headers :: "client \<Rightarrow> world \<Rightarrow> string \<Rightarrow> (string \<times> string) list" where
  "auth_headers self w body =
     (case (api_key self, user self) of
        (Some k, Some u) \<Rightarrow> [(''X-USER'', u), (''X-SIGNATURE'', hexdigest (hmac_sha256 w k body))]
      | _ \<Rightarrow> [])"

definition posted_request :: "client \<Rightarrow> world \<Rightarrow> nat \<Rightarrow> string \<Rightarrow> http_request" where
  "posted_request self w a api =
     \<lparr>url = ''https://api.coinut.com'',
      headers = auth_headers self w (json_dumps (JDict (posted_content w a api))),
      data = json_dumps (JDict (posted_content w a api)), timeout = 5\<rparr>"

text \<open>A call that builds the dictionary \<open>d\<close> and passes it to \<^verbatim>\<open>request\<close>.\<close>

definition request_with :: "client \<Rightarrow> string \<Rightarrow> dict \<Rightarrow> world \<Rightarrow> (error + json) \<times> world" where
  "request_with self api d w = request self api (Some (next_addr w)) (snd (new_dict d w))"

text \<open>What a body is: the serialisation of a proper dictionary with the two fields.\<close>

definition envelope :: "string \<Rightarrow> int \<Rightarrow> string \<Rightarrow> bool" where
  "envelope api n body =
     (\<exists>d. body = json_dumps (JDict d) \<and> wf_dict d \<and>
          dict_get d ''request'' = Some (JStr api) \<and> count_list (dict_keys d) ''request'' = 1 \<and>
          dict_get d ''nonce'' = Some (JInt n) \<and> count_list (dict_keys d) ''nonce'' = 1)"

text \<open>
  The worlds that calls reach: the default object is a proper dictionary, and it is not
  the next object to be created.
\<close>

definition wf_world :: "world \<Rightarrow> bool" where
  "wf_world w = (default_content < next_addr w \<and> wf_dict (heap w default_content))"

text \<open>A world for the examples: every raw draw is 41 and the server answers \<^verbatim>\<open>{}\<close>.\<close>

definition example_world :: world where
  "example_world = init_world (\<lambda>i. 41) (\<lambda>h. Json_body (JDict [])) (\<lambda>k m. ''mac'')"

text \<open>
  Two more: a world where the dictionary at address 1 already has the keys
  \<^verbatim>\<open>request\<close> and \<^verbatim>\<open>nonce\<close>, and a world whose server lists one spot instrument.
\<close>

definition forged_world :: world where
  "forged_world =
     example_world\<lparr>heap := (heap example_world)
       (1 := [(''request'', JStr ''forged''), (''nonce'', JInt 0), (''inst_id'', JInt 1)]),
       next_addr := 2\<rparr>"

definition spot_world :: world where
  "spot_world =
     init_world (\<lambda>i. 41)
       (\<lambda>h. Json_body (JDict [(''SPOT'', JDict [(''LTCBTC'', JList [JDict [(''inst_id'', JInt 1)]])])]))
       (\<lambda>k m. ''mac'')"

section \<open>Reading a fixed-point string\<close>

text \<open>
  What a reader of the order sees in a \<^verbatim>\<open>qty\<close> or \<^verbatim>\<open>price\<close> string: an optional
  minus sign, the digits before the point, the point, the digits after it, and the
  rational number that this decimal notation denotes.
\<close>

definition is_digit :: "char \<Rightarrow> bool" where
  "is_digit c = (c \<in> set ''0123456789'')"

definition digit_val :: "char \<Rightarrow> nat" where
  "digit_val c = of_char c - 48"

definition digits_val :: "string \<Rightarrow> nat" where
  "digits_val s = foldl (\<lambda>a c. 10 * a + digit_val c) 0 s"

definition unsigned_part :: "string \<Rightarrow> string" where
  "unsigned_part s = (case s of [] \<Rightarrow> [] | c # cs \<Rightarrow> if c = CHR ''-'' then cs else s)"

definition int_part :: "string \<Rightarrow> string" where
  "int_part s = takeWhile (\<lambda>c. c \<noteq> CHR ''.'') (unsigned_part s)"

definition point_part :: "string \<Rightarrow> string" where
  "point_part s = dropWhile (\<lambda>c. c \<noteq> CHR ''.'') (unsigned_part s)"

definition frac_part :: "string \<Rightarrow> string" where
  "frac_part s = drop 1 (point_part s)"

definition is_fixed_point :: "nat \<Rightarrow> string \<Rightarrow> bool" where
  "is_fixed_point k s =
     (int_part s \<noteq> [] \<and> list_all is_digit (int_part s) \<and> point_part s \<noteq> [] \<and>
      length (frac_part s) = k \<and> list_all is_digit (frac_part s))"

definition decimal_value :: "string \<Rightarrow> rat" where
  "decimal_value s =
     (let v = of_nat (digits_val (int_part s)) +
              of_nat (digits_val (frac_part s)) / 10 ^ length (frac_part s)
      in if take 1 s = ''-'' then - v else v)"

definition parse_fixed :: "string \<Rightarrow> rat option" where
  "parse_fixed s =
     (if is_fixed_point (length (frac_part s)) s then Some (decimal_value s) else None)"

section \<open>The grammar of JSON texts\<close>

text \<open>
  The grammar of RFC 8259: white space, numbers, strings with their escapes, arrays and
  objects. An element is a value between white space; this is also what the RFC calls
  a JSON text.
\<close>

definition json_ws :: "string \<Rightarrow> bool" where
  "json_ws s = list_all (\<lambda>c. c \<in> set [CHR 0x20, CHR 0x09, CHR 0x0A, CHR 0x0D]) s"

definition is_hex :: "char \<Rightarrow> bool" where
  "is_hex c = (c \<in> set ''0123456789abcdefABCDEF'')"

definition json_int :: "string \<Rightarrow> bool" where
  "json_int s = (s = ''0'' \<or> (list_all is_digit s \<and> take 1 s \<noteq> [] \<and> take 1 s \<noteq> ''0''))"

definition json_digits :: "string \<Rightarrow> bool" where
  "json_digits s = (list_all is_digit s \<and> s \<noteq> [])"

inductive json_frac :: "string \<Rightarrow> bool" where
  no_frac: "json_frac []"
| frac: "json_digits ds \<Longrightarrow> json_frac (CHR ''.'' # ds)"

inductive json_exp :: "string \<Rightarrow> bool" where
  no_exp: "json_exp []"
| exp: "e \<in> set ''eE'' \<Longrightarrow> sg \<in> set [[], ''-'', ''+''] \<Longrightarrow> json_digits ds \<Longrightarrow> json_exp (e # sg @ ds)"

inductive json_number :: "string \<Rightarrow> bool" where
  number: "sg \<in> set [[], ''-''] \<Longrightarrow> json_int i \<Longrightarrow> json_frac f \<Longrightarrow> json_exp x
    \<Longrightarrow> json_number (sg @ i @ f @ x)"

inductive json_chars :: "string \<Rightarrow> bool" where
  chars_end: "json_chars []"
| chars_plain: "32 \<le> (of_char c :: nat) \<Longrightarrow> c \<noteq> CHR 0x22 \<Longrightarrow> c \<noteq> CHR 0x5C \<Longrightarrow> json_chars s
    \<Longrightarrow> json_chars (c # s)"
| chars_escape: "e \<in> set [CHR 0x22, CHR 0x5C, CHR ''/'', CHR ''b'', CHR ''f'', CHR ''n'', CHR ''r'', CHR ''t'']
    \<Longrightarrow> json_chars s \<Longrightarrow> json_chars (CHR 0x5C # e # s)"
| chars_unicode: "is_hex h1 \<Longrightarrow> is_hex h2 \<Longrightarrow> is_hex h3 \<Longrightarrow> is_hex h4 \<Longrightarrow> json_chars s
    \<Longrightarrow> json_chars (CHR 0x5C # CHR ''u'' # h1 # h2 # h3 # h4 # s)"

inductive json_string :: "string \<Rightarrow> bool" where
  string: "json_chars b \<Longrightarrow> json_string (CHR 0x22 # b @ [CHR 0x22])"

inductive json_value :: "string \<Rightarrow> bool"
  and json_element :: "string \<Rightarrow> bool"
  and json_elements :: "string \<Rightarrow> bool"
  and json_member :: "string \<Rightarrow> bool"
  and json_members :: "string \<Rightarrow> bool" where
  null: "json_value ''null''"
| true: "json_value ''true''"
| false: "json_value ''false''"
| num: "json_number s \<Longrightarrow> json_value s"
| str: "json_string s \<Longrightarrow> json_value s"
| empty_array: "json_ws a \<Longrightarrow> json_value (''['' @ a @ '']'')"
| array: "json_elements s \<Longrightarrow> json_value (''['' @ s @ '']'')"
| empty_object: "json_ws a \<Longrightarrow> json_value (''{'' @ a @ ''}'')"
| object: "json_members s \<Longrightarrow> json_value (''{'' @ s @ ''}'')"
| element: "json_ws a \<Longrightarrow> json_value v \<Longrightarrow> json_ws b \<Longrightarrow> json_element (a @ v @ b)"
| one_element: "json_element e \<Longrightarrow> json_elements e"
| more_elements: "json_element e \<Longrightarrow> json_elements s \<Longrightarrow> json_elements (e @ '','' @ s)"
| member: "json_ws a \<Longrightarrow> json_string k \<Longrightarrow> json_ws b \<Longrightarrow> json_element v
    \<Longrightarrow> json_member (a @ k @ b @ '':'' @ v)"
| one_member: "json_member m \<Longrightarrow> json_members m"
| more_members: "json_member m \<Longrightarrow> json_members s \<Longrightarrow> json_members (m @ '','' @ s)"

section \<open>Evaluation of the formatting functions\<close>

lemma replicate_unfold: "replicate n x = (if n = 0 then [] else x # replicate (n - 1) x)"
  by (cases n) simp_all

lemma show_nat_small: "n < 10 \<Longrightarrow> show_nat n = [digit_char n]"
  by (simp add: show_nat.simps[of n])

lemma show_nat_large:
  "10 \<le> n \<Longrightarrow> show_nat n = show_nat (n div 10) @ [digit_char (n mod 10)]"
  by (simp add: show_nat.simps[of n])

lemmas fmt_eval =
  fixed8_def scaled8_def round_half_even_def Let_def zero_pad_def
  show_nat_small show_nat_large digit_char_def replicate_unfold

lemmas read_eval =
  is_fixed_point_def int_part_def frac_part_def point_part_def unsigned_part_def
  is_digit_def decimal_value_def parse_fixed_def digits_val_def digit_val_def

section \<open>The shape and the value of a formatted number\<close>

lemma digit_char_is_digit: "d < 10 \<Longrightarrow> is_digit (digit_char d)"
proof -
  assume "d < 10"
  then have "d \<in> {0,1,2,3,4,5,6,7,8,9}" by auto
  then show ?thesis by (auto simp: is_digit_def digit_char_def)
qed

lemma digit_val_digit_char: "d < 10 \<Longrightarrow> digit_val (digit_char d) = d"
proof -
  assume "d < 10"
  then have "d \<in> {0,1,2,3,4,5,6,7,8,9}" by auto
  then show ?thesis by (auto simp: digit_val_def digit_char_def)
qed

lemma show_nat_digits: "list_all is_digit (show_nat n)"
proof (induction n rule: show_nat.induct)
  case (1 n)
  show ?case
  proof (cases "n < 10")
    case True
    then show ?thesis by (simp add: show_nat_small digit_char_is_digit)
  next
    case False
    then show ?thesis using 1 by (simp add: show_nat_large digit_char_is_digit)
  qed
qed

lemma show_nat_nonempty: "show_nat n \<noteq> []"
  by (simp add: show_nat.simps[of n])

lemma digits_val_snoc: "digits_val (s @ [c]) = 10 * digits_val s + digit_val c"
  by (simp add: digits_val_def)

lemma digits_val_show_nat: "digits_val (show_nat n) = n"
proof (induction n rule: show_nat.induct)
  case (1 n)
  show ?case
  proof (cases "n < 10")
    case True
    then show ?thesis by (simp add: show_nat_small digits_val_def digit_val_digit_char)
  next
    case False
    then show ?thesis using 1 by (simp add: show_nat_large digits_val_snoc digit_val_digit_char)
  qed
qed

lemma length_show_nat: "0 < k \<Longrightarrow> n < 10 ^ k \<Longrightarrow> length (show_nat n) \<le> k"
proof (induction n arbitrary: k rule: show_nat.induct)
  case (1 n)
  show ?case
  proof (cases "n < 10")
    case True
    then show ?thesis using 1(2) by (simp add: show_nat_small)
  next
    case False
    obtain j where j: "k = Suc j" using 1(2) by (cases k) auto
    have "j \<noteq> 0"
    proof
      assume "j = 0"
      with 1(3) j have "n < 10" by simp
      with False show False by simp
    qed
    moreover have "n div 10 < 10 ^ j" using 1(3) j by (simp add: less_mult_imp_div_less mult.commute)
    ultimately have "length (show_nat (n div 10)) \<le> j" using 1(1)[OF False, of j] by simp
    then show ?thesis using False j by (simp add: show_nat_large)
  qed
qed


lemma digit_not_point: "is_digit c \<Longrightarrow> c \<noteq> CHR ''.''"
  by (auto simp: is_digit_def)

lemma digit_not_minus: "is_digit c \<Longrightarrow> c \<noteq> CHR ''-''"
  by (auto simp: is_digit_def)

lemma takeWhile_digits:
  "list_all is_digit ip \<Longrightarrow> takeWhile (\<lambda>c. c \<noteq> CHR ''.'') (ip @ CHR ''.'' # fp) = ip"
  by (induction ip) (auto simp: digit_not_point)

lemma dropWhile_digits:
  "list_all is_digit ip \<Longrightarrow> dropWhile (\<lambda>c. c \<noteq> CHR ''.'') (ip @ CHR ''.'' # fp) = CHR ''.'' # fp"
  by (induction ip) (auto simp: digit_not_point)

lemma unsigned_part_digits:
  "ip \<noteq> [] \<Longrightarrow> list_all is_digit ip \<Longrightarrow> unsigned_part (ip @ s) = ip @ s"
  by (cases ip) (auto simp: unsigned_part_def digit_not_minus)

lemma unsigned_part_minus: "unsigned_part (CHR ''-'' # s) = s"
  by (simp add: unsigned_part_def)

lemma digits_val_zeros: "digits_val (replicate k CHR ''0'' @ s) = digits_val s"
proof -
  have "foldl (\<lambda>a c. 10 * a + digit_val c) 0 (replicate k CHR ''0'') = 0"
  proof (induction k)
    case 0
    show ?case by simp
  next
    case (Suc k)
    have "replicate (Suc k) CHR ''0'' = replicate k CHR ''0'' @ ''0''"
      by (simp add: replicate_append_same)
    then show ?case using Suc by (simp add: digit_val_def)
  qed
  then show ?thesis by (simp add: digits_val_def)
qed

lemma zero_pad_length: "length s \<le> w \<Longrightarrow> length (zero_pad w s) = w"
  by (simp add: zero_pad_def)

lemma zero_is_digit: "is_digit CHR ''0''"
  by (simp add: is_digit_def)

lemma zero_pad_digits: "list_all is_digit s \<Longrightarrow> list_all is_digit (zero_pad w s)"
  by (auto simp: zero_pad_def list_all_iff zero_is_digit)

lemma digits_val_zero_pad: "digits_val (zero_pad w s) = digits_val s"
  by (simp add: zero_pad_def digits_val_zeros)

lemma frac8_length: "length (zero_pad 8 (show_nat (n mod 100000000))) = 8"
proof (rule zero_pad_length)
  have "n mod 100000000 < 10 ^ 8" by simp
  then show "length (show_nat (n mod 100000000)) \<le> 8"
    by (rule length_show_nat[rotated]) simp
qed

lemma fixed8_unfold:
  "fixed8 n = show_nat (n div 100000000) @ CHR ''.'' # zero_pad 8 (show_nat (n mod 100000000))"
  by (simp add: fixed8_def)

lemma fixed8_unsigned: "unsigned_part (fixed8 n) = fixed8 n"
  unfolding fixed8_unfold by (rule unsigned_part_digits[OF show_nat_nonempty show_nat_digits])

lemma fixed8_parts:
  "int_part (fixed8 n) = show_nat (n div 100000000)"
  "point_part (fixed8 n) = CHR ''.'' # zero_pad 8 (show_nat (n mod 100000000))"
  "frac_part (fixed8 n) = zero_pad 8 (show_nat (n mod 100000000))"
proof -
  show "int_part (fixed8 n) = show_nat (n div 100000000)"
    unfolding int_part_def fixed8_unsigned unfolding fixed8_unfold
    by (rule takeWhile_digits[OF show_nat_digits])
  show p: "point_part (fixed8 n) = CHR ''.'' # zero_pad 8 (show_nat (n mod 100000000))"
    unfolding point_part_def fixed8_unsigned unfolding fixed8_unfold
    by (rule dropWhile_digits[OF show_nat_digits])
  show "frac_part (fixed8 n) = zero_pad 8 (show_nat (n mod 100000000))"
    by (simp add: frac_part_def p)
qed

lemma minus_fixed8_parts:
  "int_part (CHR ''-'' # fixed8 n) = int_part (fixed8 n)"
  "point_part (CHR ''-'' # fixed8 n) = point_part (fixed8 n)"
  "frac_part (CHR ''-'' # fixed8 n) = frac_part (fixed8 n)"
  by (simp_all add: int_part_def point_part_def frac_part_def unsigned_part_minus fixed8_unsigned)

lemma fixed8_is_fixed_point: "is_fixed_point 8 (fixed8 n)"
  by (simp add: is_fixed_point_def fixed8_parts show_nat_nonempty show_nat_digits
      zero_pad_digits frac8_length)

lemma minus_fixed8_is_fixed_point: "is_fixed_point 8 (CHR ''-'' # fixed8 n)"
  using fixed8_is_fixed_point[of n] by (simp add: is_fixed_point_def minus_fixed8_parts)

lemma fixed8_head: "take 1 (fixed8 n) \<noteq> ''-''"
proof -
  obtain c cs where c: "show_nat (n div 100000000) = c # cs"
    using show_nat_nonempty by (cases "show_nat (n div 100000000)") auto
  have "is_digit c" using show_nat_digits[of "n div 100000000"] c by simp
  then show ?thesis by (simp add: fixed8_unfold c digit_not_minus)
qed

lemma scaled_split:
  "(of_nat (n div 100000000) :: rat) + of_nat (n mod 100000000) / 100000000 = of_nat n / 100000000"
proof -
  have "(of_nat n :: rat) = of_nat (n div 100000000 * 100000000 + n mod 100000000)" by simp
  also have "\<dots> = of_nat (n div 100000000) * 100000000 + of_nat (n mod 100000000)"
    by (simp only: of_nat_add of_nat_mult of_nat_numeral)
  finally show ?thesis by (simp add: field_simps)
qed

lemma decimal_value_fixed8: "decimal_value (fixed8 n) = of_nat n / 100000000"
  using fixed8_head[of n] scaled_split[of n]
  by (simp add: decimal_value_def fixed8_parts digits_val_show_nat digits_val_zero_pad
      frac8_length del: take_Suc_Cons)

lemma decimal_value_minus_fixed8:
  "decimal_value (CHR ''-'' # fixed8 n) = - (of_nat n / 100000000)"
  using scaled_split[of n]
  by (simp add: decimal_value_def minus_fixed8_parts fixed8_parts digits_val_show_nat
      digits_val_zero_pad frac8_length)

section \<open>Rounding to eight decimals\<close>

lemma round_half_even_near:
  assumes "0 < d"
  shows "2 * \<bar>int (round_half_even a d) * int d - int a\<bar> \<le> int d"
    and "2 * \<bar>int (round_half_even a d) * int d - int a\<bar> = int d \<Longrightarrow> even (round_half_even a d)"
proof -
  define q r where "q = a div d" and "r = a mod d"
  have "a = q * d + r" by (simp add: q_def r_def)
  then have a: "int a = int q * int d + int r" by (metis of_nat_add of_nat_mult)
  have r: "int r < int d" "0 \<le> int r" using assms by (simp_all add: r_def)
  have rhe: "round_half_even a d =
      (if 2 * r < d then q else if d < 2 * r then q + 1 else if even q then q else q + 1)"
    by (simp add: round_half_even_def Let_def q_def r_def)
  consider (lo) "2 * r < d" | (hi) "d < 2 * r" | (tie) "2 * r = d" by linarith
  then show "2 * \<bar>int (round_half_even a d) * int d - int a\<bar> \<le> int d"
  proof cases
    case lo
    then have "int (round_half_even a d) * int d - int a = - int r" by (simp add: rhe a)
    then show ?thesis using lo by simp
  next
    case hi
    then have "int (round_half_even a d) * int d - int a = int d - int r"
      by (simp add: rhe a algebra_simps)
    then show ?thesis using hi r by simp
  next
    case tie
    then have "int (round_half_even a d) * int d - int a = - int r
       \<or> int (round_half_even a d) * int d - int a = int d - int r"
      by (simp add: rhe a algebra_simps)
    then show ?thesis using tie r by auto
  qed
  show "even (round_half_even a d)" if h: "2 * \<bar>int (round_half_even a d) * int d - int a\<bar> = int d"
  proof -
    consider (lo) "2 * r < d" | (hi) "d < 2 * r" | (tie) "2 * r = d" by linarith
    then show ?thesis
    proof cases
      case lo
      then have "int (round_half_even a d) * int d - int a = - int r" by (simp add: rhe a)
      then show ?thesis using lo h by simp
    next
      case hi
      then have "int (round_half_even a d) * int d - int a = int d - int r"
        by (simp add: rhe a algebra_simps)
      then show ?thesis using hi r h by simp
    next
      case tie
      then show ?thesis by (simp add: rhe)
    qed
  qed
qed

lemma scaled8_near:
  "\<bar>of_nat (scaled8 m e) / 100000000 - magnitude m e\<bar> \<le> 1 / 200000000"
proof (cases "0 \<le> e")
  case True
  then show ?thesis by (simp add: scaled8_def magnitude_def)
next
  case False
  define d :: nat where "d = 2 ^ nat (- e)"
  define N where "N = round_half_even (m * 100000000) d"
  have d: "0 < d" by (simp add: d_def)
  have "2 * \<bar>int N * int d - int (m * 100000000)\<bar> \<le> int d"
    unfolding N_def by (rule round_half_even_near(1)[OF d])
  then have "rat_of_int (2 * \<bar>int N * int d - int (m * 100000000)\<bar>) \<le> rat_of_int (int d)"
    by (simp only: of_int_le_iff)
  then have le: "2 * \<bar>rat_of_nat N * rat_of_nat d - rat_of_nat m * 100000000\<bar> \<le> rat_of_nat d"
    by simp
  have d': "0 < rat_of_nat d" using d by simp
  have "rat_of_nat N / 100000000 - rat_of_nat m / rat_of_nat d
      = (rat_of_nat N * rat_of_nat d - rat_of_nat m * 100000000) / (100000000 * rat_of_nat d)"
    using d' by (simp add: field_simps)
  then have "\<bar>rat_of_nat N / 100000000 - rat_of_nat m / rat_of_nat d\<bar>
      = \<bar>rat_of_nat N * rat_of_nat d - rat_of_nat m * 100000000\<bar> / (100000000 * rat_of_nat d)"
    using d' by (simp add: abs_divide abs_mult)
  also have "\<dots> \<le> (rat_of_nat d / 2) / (100000000 * rat_of_nat d)"
    using le d' by (intro divide_right_mono) simp_all
  also have "\<dots> = 1 / 200000000" using d' by simp
  finally show ?thesis using False by (simp add: scaled8_def magnitude_def d_def N_def)
qed

lemma nearest_multiple_exact:
  fixes q :: rat
  assumes "\<bar>of_int N / 100000000 - q\<bar> \<le> 1 / 200000000" and "q = of_int k / 100000000"
  shows "of_int N / 100000000 = q"
proof -
  have "\<bar>rat_of_int N - rat_of_int k\<bar> / 100000000 \<le> 1 / 200000000"
    using assms by (simp add: diff_divide_distrib[symmetric] abs_divide)
  then have "2 * \<bar>rat_of_int N - rat_of_int k\<bar> \<le> 1" by (simp add: field_simps)
  then have "rat_of_int (2 * \<bar>N - k\<bar>) \<le> rat_of_int 1" by simp
  then have "2 * \<bar>N - k\<bar> \<le> 1" by (simp only: of_int_le_iff)
  then have "N = k" by arith
  then show ?thesis using assms(2) by simp
qed

lemma parse_fixed_fixed8: "parse_fixed (fixed8 n) = Some (of_nat n / 100000000)"
  using fixed8_is_fixed_point[of n]
  by (simp add: parse_fixed_def decimal_value_fixed8 is_fixed_point_def)

lemma parse_fixed_minus_fixed8:
  "parse_fixed (CHR ''-'' # fixed8 n) = Some (- (of_nat n / 100000000))"
  using minus_fixed8_is_fixed_point[of n]
  by (simp add: parse_fixed_def decimal_value_minus_fixed8 is_fixed_point_def)

lemma fmt8f_is_fixed_point: "is_finite x \<Longrightarrow> is_fixed_point 8 (fmt8f x)"
  by (cases x) (simp_all add: fixed8_is_fixed_point minus_fixed8_is_fixed_point)

lemma fmt8f_parse:
  "parse_fixed (fmt8f (Finite s m e)) =
     Some (of_int (if s then - int (scaled8 m e) else int (scaled8 m e)) / 100000000)"
  by (simp add: parse_fixed_fixed8 parse_fixed_minus_fixed8)

lemma scaled8_tie:
  assumes "\<bar>of_nat (scaled8 m e) / 100000000 - magnitude m e\<bar> = 1 / 200000000"
  shows "even (scaled8 m e)"
proof (cases "0 \<le> e")
  case True
  then have "of_nat (scaled8 m e) / 100000000 - magnitude m e = 0"
    by (simp add: scaled8_def magnitude_def)
  then show ?thesis using assms by simp
next
  case False
  define d :: nat where "d = 2 ^ nat (- e)"
  define N where "N = round_half_even (m * 100000000) d"
  have d: "0 < d" by (simp add: d_def)
  have d': "0 < rat_of_nat d" using d by simp
  have N: "scaled8 m e = N" using False by (simp add: scaled8_def N_def d_def)
  have mg: "magnitude m e = rat_of_nat m / rat_of_nat d" using False by (simp add: magnitude_def d_def)
  have "rat_of_nat N / 100000000 - rat_of_nat m / rat_of_nat d
      = (rat_of_nat N * rat_of_nat d - rat_of_nat m * 100000000) / (100000000 * rat_of_nat d)"
    using d' by (simp add: field_simps)
  then have "\<bar>rat_of_nat N / 100000000 - rat_of_nat m / rat_of_nat d\<bar>
      = \<bar>rat_of_nat N * rat_of_nat d - rat_of_nat m * 100000000\<bar> / (100000000 * rat_of_nat d)"
    using d' by (simp add: abs_divide abs_mult)
  then have "\<bar>rat_of_nat N * rat_of_nat d - rat_of_nat m * 100000000\<bar> / (100000000 * rat_of_nat d)
      = 1 / 200000000"
    using assms unfolding N mg by simp
  then have "2 * \<bar>rat_of_nat N * rat_of_nat d - rat_of_nat m * 100000000\<bar> = rat_of_nat d"
    using d' by (simp add: field_simps)
  then have "rat_of_int (2 * \<bar>int N * int d - int (m * 100000000)\<bar>) = rat_of_int (int d)"
    by simp
  then have "2 * \<bar>int N * int d - int (m * 100000000)\<bar> = int d"
    by (simp only: of_int_eq_iff)
  then have "even N" unfolding N_def by (rule round_half_even_near(2)[OF d])
  then show ?thesis by (simp add: N)
qed

lemma fmt8f_near:
  "\<bar>of_int (if s then - int (scaled8 m e) else int (scaled8 m e)) / 100000000
     - (if s then - magnitude m e else magnitude m e)\<bar>
   = \<bar>of_nat (scaled8 m e) / 100000000 - magnitude m e\<bar>"
proof (cases s)
  case True
  have "\<bar>- (rat_of_nat (scaled8 m e) / 100000000) - - magnitude m e\<bar>
      = \<bar>rat_of_nat (scaled8 m e) / 100000000 - magnitude m e\<bar>"
    by (simp only: abs_minus_commute[of "- (rat_of_nat (scaled8 m e) / 100000000)"])
  then show ?thesis using True by simp
next
  case False
  then show ?thesis by simp
qed

lemma nearest_multiple_unique:
  fixes v :: rat
  assumes "\<bar>of_int N / 100000000 - v\<bar> \<le> 1 / 200000000"
    and "\<bar>of_int k / 100000000 - v\<bar> < 1 / 200000000"
  shows "N = k"
proof -
  have "\<bar>rat_of_int N / 100000000 - rat_of_int k / 100000000\<bar>
      \<le> \<bar>rat_of_int N / 100000000 - v\<bar> + \<bar>rat_of_int k / 100000000 - v\<bar>"
    by (rule abs_triangle_ineq4[of "rat_of_int N / 100000000 - v" "rat_of_int k / 100000000 - v", simplified])
  then have "\<bar>rat_of_int N / 100000000 - rat_of_int k / 100000000\<bar> < 1 / 100000000"
    using assms by linarith
  then have "\<bar>rat_of_int N - rat_of_int k\<bar> / 100000000 < 1 / 100000000"
    by (simp add: diff_divide_distrib[symmetric] abs_divide)
  then have "\<bar>rat_of_int N - rat_of_int k\<bar> < 1" by simp
  then have "rat_of_int \<bar>N - k\<bar> < rat_of_int 1" by simp
  then have "\<bar>N - k\<bar> < 1" by (simp only: of_int_less_iff)
  then show ?thesis by arith
qed

section \<open>The order builder\<close>

lemma create_new_order_fst:
  "fst (create_new_order i s q p c w) =
     [(''inst_id'', JInt i), (''side'', JStr s), (''qty'', JStr (fmt8f q))]
     @ (case p of None \<Rightarrow> [] | Some x \<Rightarrow> [(''price'', JStr (fmt8f x))])
     @ [(''client_ord_id'', JInt (case c of Some n \<Rightarrow> n | None \<Rightarrow> fst (randint 1 4294967290 w)))]"
  by (simp add: create_new_order_def Let_def split: option.splits prod.splits)

lemma create_new_order_snd:
  "snd (create_new_order i s q p c w) =
     (case c of Some n \<Rightarrow> w | None \<Rightarrow> snd (randint 1 4294967290 w))"
  by (simp add: create_new_order_def Let_def split: option.splits prod.splits)

lemma randint_range:
  "a \<le> b \<Longrightarrow> a \<le> fst (randint a b w) \<and> fst (randint a b w) \<le> b"
proof -
  assume ab: "a \<le> b"
  let ?k = "nat (b - a + 1)"
  have pos: "0 < ?k" using ab by simp
  have "rand_draws w (rand_used w) mod ?k < ?k" using pos by simp
  then have "int (rand_draws w (rand_used w) mod ?k) < b - a + 1" using ab by linarith
  then show ?thesis by (simp add: randint_def)
qed

lemma nonce_range:
  "1 \<le> fst (randint 1 4294967290 w) \<and> fst (randint 1 4294967290 w) \<le> 4294967290"
  by (rule randint_range) simp

lemma randint_world:
  "snd (randint a b w) = w\<lparr>rand_used := Suc (rand_used w)\<rparr>"
  by (simp add: randint_def)

text \<open>
  C4. \<^verbatim>\<open>create_new_order(1, "BUY", 0.0000001, 0.013)\<close>: the double \<^verbatim>\<open>0.0000001\<close> is
  \<open>944473296573929 \<cdot> 2\<^sup>-\<^sup>7\<^sup>3\<close> and the double \<^verbatim>\<open>0.013\<close> is \<open>7493989779944505 \<cdot> 2\<^sup>-\<^sup>5\<^sup>9\<close>.
  The call returns the mapping with exactly the keys \<^verbatim>\<open>inst_id\<close>, \<^verbatim>\<open>side\<close>,
  \<^verbatim>\<open>qty\<close>, \<^verbatim>\<open>price\<close> and \<^verbatim>\<open>client_ord_id\<close>, with the values \<open>1\<close>, \<^verbatim>\<open>"BUY"\<close>,
  \<^verbatim>\<open>"0.00000010"\<close>, \<^verbatim>\<open>"0.01300000"\<close> and an integer between 1 and 4294967290, and it
  posts nothing.
\<close>

theorem create_new_order_example:
  "\<exists>n. fst (create_new_order 1 ''BUY'' (Finite False 944473296573929 (- 73))
             (Some (Finite False 7493989779944505 (- 59))) None w) =
          [(''inst_id'', JInt 1), (''side'', JStr ''BUY''), (''qty'', JStr ''0.00000010''),
           (''price'', JStr ''0.01300000''), (''client_ord_id'', JInt n)] \<and>
        1 \<le> n \<and> n \<le> 4294967290 \<and>
        sent (snd (create_new_order 1 ''BUY'' (Finite False 944473296573929 (- 73))
             (Some (Finite False 7493989779944505 (- 59))) None w)) = sent w"
proof -
  have q: "fmt8f (Finite False 944473296573929 (- 73)) = ''0.00000010''"
    by (simp add: fmt_eval)
  have p: "fmt8f (Finite False 7493989779944505 (- 59)) = ''0.01300000''"
    by (simp add: fmt_eval)
  show ?thesis
    using nonce_range[of w]
    by (simp add: create_new_order_fst create_new_order_snd randint_world q p del: fmt8f.simps)
qed




text \<open>
  C3 (amended). For every finite \<^verbatim>\<open>qty\<close> or \<^verbatim>\<open>price\<close> given to
  \<^verbatim>\<open>create_new_order\<close>, the formatted string is in fixed-point notation with exactly 8
  digits after the point, whatever the magnitude of the input, and it denotes the
  multiple of \<open>10\<^sup>-\<^sup>8\<close> nearest to the input, the even one of two that are equally near.
  So it is within \<open>5 \<cdot> 10\<^sup>-\<^sup>9\<close> of the input; it is equal to the input exactly when the
  input is itself a multiple of \<open>10\<^sup>-\<^sup>8\<close>; and when the input is nearer than
  \<open>5 \<cdot> 10\<^sup>-\<^sup>9\<close> to a decimal number with 8 digits after the point, as the double
  \<^verbatim>\<open>0.0000001\<close> is, the string denotes that number.
\<close>

theorem create_new_order_fixed_point:
  "is_finite x \<Longrightarrow>
     dict_get (fst (create_new_order i s x p c w)) ''qty'' = Some (JStr (fmt8f x)) \<and>
     dict_get (fst (create_new_order i s q (Some x) c w)) ''price'' = Some (JStr (fmt8f x)) \<and>
     is_fixed_point 8 (fmt8f x) \<and>
     (\<exists>(N :: int) v.
        parse_fixed (fmt8f x) = Some (of_int N / 10 ^ 8) \<and> float_value x = Some v \<and>
        \<bar>of_int N / 10 ^ 8 - v\<bar> \<le> 1 / (2 * 10 ^ 8) \<and>
        (\<bar>of_int N / 10 ^ 8 - v\<bar> = 1 / (2 * 10 ^ 8) \<longrightarrow> even N) \<and>
        ((of_int N / 10 ^ 8 = v) = (\<exists>k :: int. v = of_int k / 10 ^ 8)) \<and>
        (\<forall>k :: int. \<bar>of_int k / 10 ^ 8 - v\<bar> < 1 / (2 * 10 ^ 8) \<longrightarrow> N = k))"
proof -
  assume fin: "is_finite x"
  then obtain sg m e where x: "x = Finite sg m e" by (cases x) simp_all
  define N where "N = (if sg then - int (scaled8 m e) else int (scaled8 m e))"
  define v where "v = (if sg then - magnitude m e else magnitude m e)"
  have fv: "float_value x = Some v" by (simp add: x v_def)
  have p: "parse_fixed (fmt8f x) = Some (of_int N / 100000000)"
    unfolding x N_def by (rule fmt8f_parse)
  have ab: "\<bar>of_int N / 100000000 - v\<bar> = \<bar>of_nat (scaled8 m e) / 100000000 - magnitude m e\<bar>"
    unfolding N_def v_def by (rule fmt8f_near)
  have n: "\<bar>of_int N / 100000000 - v\<bar> \<le> 1 / 200000000"
    unfolding ab by (rule scaled8_near)
  have t: "\<bar>of_int N / 100000000 - v\<bar> = 1 / 200000000 \<longrightarrow> even N"
  proof
    assume "\<bar>of_int N / 100000000 - v\<bar> = 1 / 200000000"
    then have "even (scaled8 m e)" unfolding ab by (rule scaled8_tie)
    then show "even N" by (simp add: N_def)
  qed
  have e: "(of_int N / 100000000 = v) = (\<exists>k :: int. v = of_int k / 100000000)"
  proof
    assume "of_int N / 100000000 = v"
    then show "\<exists>k :: int. v = of_int k / 100000000" by metis
  next
    assume "\<exists>k :: int. v = of_int k / 100000000"
    then obtain k :: int where "v = of_int k / 100000000" ..
    with n show "of_int N / 100000000 = v" by (rule nearest_multiple_exact)
  qed
  have u: "\<forall>k :: int. \<bar>of_int k / 100000000 - v\<bar> < 1 / 200000000 \<longrightarrow> N = k"
    using nearest_multiple_unique[OF n] by blast
  have r: "\<exists>(N :: int) v.
        parse_fixed (fmt8f x) = Some (of_int N / 100000000) \<and> float_value x = Some v \<and>
        \<bar>of_int N / 100000000 - v\<bar> \<le> 1 / 200000000 \<and>
        (\<bar>of_int N / 100000000 - v\<bar> = 1 / 200000000 \<longrightarrow> even N) \<and>
        ((of_int N / 100000000 = v) = (\<exists>k :: int. v = of_int k / 100000000)) \<and>
        (\<forall>k :: int. \<bar>of_int k / 100000000 - v\<bar> < 1 / 200000000 \<longrightarrow> N = k)"
    using p fv n t e u by blast
  have qty: "dict_get (fst (create_new_order i s x p c w)) ''qty'' = Some (JStr (fmt8f x))"
    by (simp add: create_new_order_fst dict_get_def del: fmt8f.simps)
  have price: "dict_get (fst (create_new_order i s q (Some x) c w)) ''price'' = Some (JStr (fmt8f x))"
    by (simp add: create_new_order_fst dict_get_def del: fmt8f.simps)
  have "(10::rat) ^ 8 = 100000000" "(2::rat) * 10 ^ 8 = 200000000" by simp_all
  then show ?thesis using fmt8f_is_fixed_point[OF fin] r qty price by (simp only:)
qed

theorem create_new_order_fixed_point_witness:
  "is_finite (Finite False 944473296573929 (- 73)) \<and>
   dict_get (fst (create_new_order 1 ''BUY'' (Finite False 944473296573929 (- 73)) None (Some 7)
       example_world)) ''qty'' = Some (JStr ''0.00000010'') \<and>
   is_fixed_point 8 ''0.00000010'' \<and>
   parse_fixed ''0.00000010'' = Some (of_int 10 / 10 ^ 8)"
proof -
  let ?x = "Finite False 944473296573929 (- 73)"
  have f: "fmt8f ?x = ''0.00000010''"
    by (simp add: fmt_eval)
  have fin: "is_finite ?x" by simp
  note t = create_new_order_fixed_point[where x = ?x and i = 1 and s = "''BUY''" and p = None
      and c = "Some 7" and w = example_world, OF fin]
  from t have 1: "dict_get (fst (create_new_order 1 ''BUY'' ?x None (Some 7) example_world)) ''qty''
      = Some (JStr ''0.00000010'')"
    unfolding f by blast
  from t have 2: "is_fixed_point 8 ''0.00000010''"
    unfolding f by blast
  from t obtain N :: int and v where p: "parse_fixed ''0.00000010'' = Some (of_int N / 10 ^ 8)"
    and fv: "float_value ?x = Some v"
    and u: "\<forall>k :: int. \<bar>of_int k / 10 ^ 8 - v\<bar> < 1 / (2 * 10 ^ 8) \<longrightarrow> N = k"
    unfolding f by blast
  have v: "v = 944473296573929 / 2 ^ 73" using fv by (simp add: magnitude_def)
  have "\<bar>of_int 10 / 10 ^ 8 - v\<bar> < 1 / (2 * 10 ^ 8)" unfolding v by simp
  with u have "N = 10" by blast
  with p have 3: "parse_fixed ''0.00000010'' = Some (of_int 10 / 10 ^ 8)" by simp
  show ?thesis using fin 1 2 3 by blast
qed

theorem create_new_order_fixed_point_counterexample:
  "dict_get (fst (create_new_order 1 ''BUY'' PosInf None (Some 7) example_world)) ''qty''
     = Some (JStr ''inf'') \<and>
   \<not> is_fixed_point 8 ''inf'' \<and>
   is_double (Finite False 4835703278458517 (- 82)) \<and>
   dict_get (fst (create_new_order 1 ''BUY'' (Finite False 4835703278458517 (- 82)) None (Some 7)
       example_world)) ''qty'' = Some (JStr ''0.00000000'') \<and>
   parse_fixed ''0.00000000'' = Some 0 \<and>
   float_value (Finite False 4835703278458517 (- 82)) = Some (4835703278458517 / 2 ^ 82) \<and>
   (4835703278458517 / 2 ^ 82 :: rat) \<noteq> 0"
proof -
  have f: "fmt8f (Finite False 4835703278458517 (- 82)) = ''0.00000000''"
    by (simp add: fmt_eval)
  have 1: "dict_get (fst (create_new_order 1 ''BUY'' PosInf None (Some 7) example_world)) ''qty''
     = Some (JStr ''inf'')"
    by (simp add: create_new_order_fst dict_get_def)
  have 2: "\<not> is_fixed_point 8 ''inf''" by (simp add: read_eval)
  have 3: "is_double (Finite False 4835703278458517 (- 82))" by simp
  have 4: "dict_get (fst (create_new_order 1 ''BUY'' (Finite False 4835703278458517 (- 82)) None
       (Some 7) example_world)) ''qty'' = Some (JStr ''0.00000000'')"
    by (simp add: create_new_order_fst dict_get_def f del: fmt8f.simps)
  have 5: "parse_fixed ''0.00000000'' = Some 0" by (simp add: read_eval)
  have 6: "float_value (Finite False 4835703278458517 (- 82)) = Some (4835703278458517 / 2 ^ 82)"
    by (simp add: magnitude_def)
  have 7: "(4835703278458517 / 2 ^ 82 :: rat) \<noteq> 0" by simp
  show ?thesis using 1 2 3 4 5 6 7 by blast
qed

section \<open>Dictionaries\<close>

lemma dict_get_setitem:
  "dict_get (dict_setitem d k v) k' = (if k' = k then Some v else dict_get d k')"
  by (induction d) (auto simp: dict_get_def)

lemma dict_keys_setitem:
  "dict_keys (dict_setitem d k v) =
     (if k \<in> set (dict_keys d) then dict_keys d else dict_keys d @ [k])"
  by (induction d) (force simp: dict_keys_def)+

lemma wf_dict_setitem: "wf_dict d \<Longrightarrow> wf_dict (dict_setitem d k v)"
  by (simp add: wf_dict_def dict_keys_setitem)

lemma wf_dict_Nil: "wf_dict []"
  by (simp add: wf_dict_def dict_keys_def)

section \<open>The request primitive\<close>

lemmas request_defs =
  request_def Let_def store_item_def randint_def post_def reply_result_def
  content_addr_def posted_request_def posted_content_def auth_headers_def nonce_of_def

lemma request_sent:
  "sent (snd (request self api content w)) = sent w @ [posted_request self w (content_addr content) api]"
  by (simp add: request_defs del: json_dumps.simps split: prod.splits option.splits)

lemma request_heap:
  "heap (snd (request self api content w)) =
     (heap w)(content_addr content := posted_content w (content_addr content) api)"
  by (simp add: request_defs del: json_dumps.simps split: prod.splits option.splits)

lemma request_rand_used:
  "rand_used (snd (request self api content w)) = Suc (rand_used w)"
  by (simp add: request_defs del: json_dumps.simps split: prod.splits option.splits)

lemma request_frame:
  "rand_draws (snd (request self api content w)) = rand_draws w"
  "next_addr (snd (request self api content w)) = next_addr w"
  "server (snd (request self api content w)) = server w"
  "hmac_sha256 (snd (request self api content w)) = hmac_sha256 w"
  by (simp_all add: request_defs del: json_dumps.simps split: prod.splits option.splits)

lemma request_result:
  "fst (request self api content w) =
     reply_result (server w (sent w @ [posted_request self w (content_addr content) api]))"
  by (simp add: request_defs del: json_dumps.simps split: prod.splits option.splits)

lemma request_eq:
  "request self api content w = (res, w') \<Longrightarrow>
     res = reply_result (server w (sent w @ [posted_request self w (content_addr content) api])) \<and>
     sent w' = sent w @ [posted_request self w (content_addr content) api] \<and>
     heap w' = (heap w)(content_addr content := posted_content w (content_addr content) api) \<and>
     rand_used w' = Suc (rand_used w) \<and> rand_draws w' = rand_draws w \<and>
     next_addr w' = next_addr w \<and> server w' = server w \<and> hmac_sha256 w' = hmac_sha256 w"
  using request_result[of self api content w] request_sent[of self api content w]
    request_heap[of self api content w] request_rand_used[of self api content w]
    request_frame[of self api content w]
  by simp

lemma posted_request_sel:
  "data (posted_request self w a api) = json_dumps (JDict (posted_content w a api))"
  "url (posted_request self w a api) = ''https://api.coinut.com''"
  "timeout (posted_request self w a api) = 5"
  "headers (posted_request self w a api) =
     auth_headers self w (json_dumps (JDict (posted_content w a api)))"
  by (simp_all add: posted_request_def)

lemma of_char_less_256: "(of_char c :: nat) < 256"
proof -
  have "(of_char c :: nat) mod 256 = of_char c" by simp
  then show ?thesis by (metis mod_less_divisor zero_less_numeral)
qed

lemma hex_char_lower: "d < 16 \<Longrightarrow> hex_char d \<in> set ''0123456789abcdef''"
  unfolding hex_char_def by (rule nth_mem) simp

lemma hexdigest_chars: "list_all (\<lambda>c. c \<in> set ''0123456789abcdef'') (hexdigest bs)"
proof (induction bs)
  case Nil
  show ?case by (simp add: hexdigest_def)
next
  case (Cons b bs)
  have "(of_char b :: nat) < 16 * 16" using of_char_less_256[of b] by simp
  then have hi: "(of_char b :: nat) div 16 < 16" by (rule less_mult_imp_div_less)
  have lo: "(of_char b :: nat) mod 16 < 16" by simp
  have "hex_char (of_char b div 16) \<in> set ''0123456789abcdef''"
    by (rule hex_char_lower[OF hi])
  moreover have "hex_char (of_char b mod 16) \<in> set ''0123456789abcdef''"
    by (rule hex_char_lower[OF lo])
  ultimately show ?case using Cons by (simp add: hexdigest_def del: set_simps)
qed

lemma hexdigest_length: "length (hexdigest bs) = 2 * length bs"
  by (induction bs) (simp_all add: hexdigest_def)

lemma takeWhile_index:
  "distinct xs \<Longrightarrow> i < length xs \<Longrightarrow> length (takeWhile (\<lambda>x. x \<noteq> xs ! i) xs) = i"
proof (induction xs arbitrary: i)
  case Nil
  then show ?case by simp
next
  case (Cons a xs)
  show ?case
  proof (cases i)
    case 0
    then show ?thesis by simp
  next
    case (Suc j)
    then have j: "j < length xs" using Cons.prems by simp
    then have "xs ! j \<in> set xs" by (rule nth_mem)
    then have "a \<noteq> xs ! j" using Cons.prems by auto
    moreover have "length (takeWhile (\<lambda>x. x \<noteq> xs ! j) xs) = j"
      using Cons.IH[OF _ j] Cons.prems by simp
    ultimately show ?thesis using Suc by simp
  qed
qed

lemma hex_val_hex_char: "d < 16 \<Longrightarrow> hex_val (hex_char d) = d"
  unfolding hex_val_def hex_char_def by (rule takeWhile_index) simp_all

lemma unhexlify_hexdigest: "unhexlify (hexdigest bs) = bs"
proof (induction bs)
  case Nil
  show ?case by (simp add: hexdigest_def)
next
  case (Cons b bs)
  have "(of_char b :: nat) < 16 * 16" using of_char_less_256[of b] by simp
  then have hi: "(of_char b :: nat) div 16 < 16" by (rule less_mult_imp_div_less)
  have lo: "(of_char b :: nat) mod 16 < 16" by simp
  have "char_of (16 * hex_val (hex_char (of_char b div 16)) + hex_val (hex_char (of_char b mod 16))) = b"
    unfolding hex_val_hex_char[OF hi] hex_val_hex_char[OF lo] by simp
  moreover have "hexdigest (b # bs) =
      hex_char (of_char b div 16) # hex_char (of_char b mod 16) # hexdigest bs"
    by (simp add: hexdigest_def)
  ultimately show ?case using Cons by simp
qed


lemma example_world_sel:
  "sent example_world = []" "heap example_world a = []" "rand_used example_world = 0"
  "rand_draws example_world i = 41" "hmac_sha256 example_world k m = ''mac''"
  "server example_world h = Json_body (JDict [])" "next_addr example_world = 1"
  by (simp_all add: example_world_def init_world_def)


text \<open>
  C9. \<^verbatim>\<open>request\<close> assigns the keys \<^verbatim>\<open>request\<close> and \<^verbatim>\<open>nonce\<close> in the dictionary object
  it is given, and changes no other object. When the argument is omitted, that object is
  the one default object: after the call it holds the two keys, and the next call with
  the argument omitted starts from it, not from an empty dictionary.
\<close>

theorem request_mutates_content:
  "request self api content w = (res, w') \<Longrightarrow>
     heap w' (case content of None \<Rightarrow> default_content | Some a \<Rightarrow> a) =
       dict_setitem
         (dict_setitem (heap w (case content of None \<Rightarrow> default_content | Some a \<Rightarrow> a))
            ''request'' (JStr api))
         ''nonce'' (JInt (fst (randint 1 4294967290 w))) \<and>
     (\<forall>b. b \<noteq> (case content of None \<Rightarrow> default_content | Some a \<Rightarrow> a) \<longrightarrow> heap w' b = heap w b) \<and>
     next_addr w' = next_addr w \<and>
     (content = None \<longrightarrow>
        dict_get (heap w' default_content) ''request'' = Some (JStr api) \<and>
        heap w' default_content \<noteq> [] \<and>
        (\<forall>api2. heap (snd (request self api2 None w')) default_content =
           dict_setitem (dict_setitem (heap w' default_content) ''request'' (JStr api2))
             ''nonce'' (JInt (fst (randint 1 4294967290 w')))))"
proof -
  assume r: "request self api content w = (res, w')"
  note e = request_eq[OF r]
  have h: "heap w' = (heap w)(content_addr content := posted_content w (content_addr content) api)"
    using e by simp
  have 1: "heap w' (content_addr content) =
       dict_setitem (dict_setitem (heap w (content_addr content)) ''request'' (JStr api))
         ''nonce'' (JInt (fst (randint 1 4294967290 w)))"
    by (simp add: h posted_content_def nonce_of_def)
  have 2: "\<forall>b. b \<noteq> content_addr content \<longrightarrow> heap w' b = heap w b"
    by (simp add: h)
  have 3: "next_addr w' = next_addr w" using e by simp
  have 4: "dict_get (heap w' default_content) ''request'' = Some (JStr api) \<and>
        heap w' default_content \<noteq> [] \<and>
        (\<forall>api2. heap (snd (request self api2 None w')) default_content =
           dict_setitem (dict_setitem (heap w' default_content) ''request'' (JStr api2))
             ''nonce'' (JInt (fst (randint 1 4294967290 w'))))"
    if n: "content = None"
  proof (intro conjI allI)
    have c: "content_addr content = default_content" using n by (simp add: content_addr_def)
    show g: "dict_get (heap w' default_content) ''request'' = Some (JStr api)"
      using 1 unfolding c by (simp add: dict_get_setitem)
    show "heap w' default_content \<noteq> []"
      using g by (auto simp: dict_get_def)
    show "heap (snd (request self api2 None w')) default_content =
           dict_setitem (dict_setitem (heap w' default_content) ''request'' (JStr api2))
             ''nonce'' (JInt (fst (randint 1 4294967290 w')))" for api2
      by (simp add: request_heap content_addr_def posted_content_def nonce_of_def)
  qed
  show ?thesis using 1 2 3 4 unfolding content_addr_def by blast
qed

theorem request_mutates_content_witness:
  "request (CoinutAPI None None) ''user_balance'' None example_world
     = (fst (request (CoinutAPI None None) ''user_balance'' None example_world),
        snd (request (CoinutAPI None None) ''user_balance'' None example_world)) \<and>
   heap example_world default_content = [] \<and>
   heap (snd (request (CoinutAPI None None) ''user_balance'' None example_world)) default_content
     = [(''request'', JStr ''user_balance''), (''nonce'', JInt 42)] \<and>
   heap (snd (request (CoinutAPI None None) ''user_balance'' None example_world)) 1 = []"
proof -
  let ?self = "CoinutAPI None None"
  let ?r = "request ?self ''user_balance'' None example_world"
  have p: "?r = (fst ?r, snd ?r)" by simp
  note t = request_mutates_content[OF p]
  have n: "fst (randint 1 4294967290 example_world) = 42"
    by (simp add: randint_def example_world_sel)
  from t have "heap (snd ?r) default_content =
      dict_setitem (dict_setitem (heap example_world default_content) ''request''
        (JStr ''user_balance'')) ''nonce'' (JInt (fst (randint 1 4294967290 example_world)))"
    by simp
  then have 1: "heap (snd ?r) default_content
     = [(''request'', JStr ''user_balance''), (''nonce'', JInt 42)]"
    by (simp add: n example_world_sel)
  from t have "\<forall>b. b \<noteq> default_content \<longrightarrow> heap (snd ?r) b = heap example_world b"
    by simp
  then have 2: "heap (snd ?r) 1 = []" by (simp add: default_content_def example_world_sel)
  show ?thesis using p 1 2 by (simp add: example_world_sel)
qed

lemma posted_content_get:
  "dict_get (posted_content w a api) k =
     (if k = ''nonce'' then Some (JInt (nonce_of w))
      else if k = ''request'' then Some (JStr api) else dict_get (heap w a) k)"
  by (simp add: posted_content_def dict_get_setitem)

lemma posted_content_wf: "wf_dict (heap w a) \<Longrightarrow> wf_dict (posted_content w a api)"
  by (simp add: posted_content_def wf_dict_setitem)

lemma nonce_of_range: "1 \<le> nonce_of w \<and> nonce_of w \<le> 4294967290"
  unfolding nonce_of_def by (rule nonce_range)

section \<open>Calls that build their content\<close>

lemma new_dict_sel:
  "fst (new_dict d w) = next_addr w"
  "heap (snd (new_dict d w)) = (heap w)(next_addr w := d)"
  "next_addr (snd (new_dict d w)) = Suc (next_addr w)"
  "sent (snd (new_dict d w)) = sent w"
  "server (snd (new_dict d w)) = server w"
  "hmac_sha256 (snd (new_dict d w)) = hmac_sha256 w"
  "rand_draws (snd (new_dict d w)) = rand_draws w"
  "rand_used (snd (new_dict d w)) = rand_used w"
  by (simp_all add: new_dict_def)

lemma nonce_of_new_dict: "nonce_of (snd (new_dict d w)) = nonce_of w"
  by (simp add: nonce_of_def randint_def new_dict_sel)

lemma posted_content_new_dict:
  "posted_content (snd (new_dict d w)) (next_addr w) api =
     dict_setitem (dict_setitem d ''request'' (JStr api)) ''nonce'' (JInt (nonce_of w))"
  by (simp add: posted_content_def new_dict_sel nonce_of_new_dict)


lemma request_with_sent:
  "\<exists>rq. sent (snd (request_with self api d w)) = sent w @ [rq] \<and>
        data rq = json_dumps (JDict (dict_setitem (dict_setitem d ''request'' (JStr api))
                    ''nonce'' (JInt (nonce_of w)))) \<and>
        fst (request_with self api d w) = reply_result (server w (sent w @ [rq]))"
  by (simp add: request_with_def request_sent request_result content_addr_def
      posted_request_sel new_dict_sel posted_content_new_dict del: json_dumps.simps)

lemma wrappers_request_with:
  "get_inst_tick self i w = request_with self ''inst_tick'' [(''inst_id'', JInt i)] w"
  "get_orderbook self i w = request_with self ''inst_order_book'' [(''inst_id'', JInt i)] w"
  "submit_new_orders self ords w = request_with self ''new_orders'' [(''orders'', JList ords)] w"
  "cancel_order self i x w =
     request_with self ''cancel_order'' [(''inst_id'', JInt i), (''order_id'', JInt x)] w"
  "cancel_orders self i xs w =
     request_with self ''cancel_orders''
       [(''entries'', JList (map (\<lambda>x. JDict [(''inst_id'', JInt i), (''order_id'', JInt x)]) xs))] w"
  "submit_new_order self i s q p c w =
     request_with self ''new_order'' (fst (create_new_order i s q p c w))
       (snd (create_new_order i s q p c w))"
  by (simp_all add: get_inst_tick_def get_orderbook_def submit_new_orders_def cancel_order_def
      cancel_orders_def submit_new_order_def request_with_def new_dict_def Let_def
      split: prod.splits)

lemma get_spot_instruments_unfold:
  "get_spot_instruments self pair w =
     (bind_err (fst (request_with self ''inst_list'' [(''sec_type'', JStr ''SPOT'')] w))
        (\<lambda>result. case pair of
            Some p \<Rightarrow>
              bind_err (getitem_str result ''SPOT'') (\<lambda>spot.
              bind_err (getitem_str spot p) (\<lambda>insts. getitem_int insts 0))
          | None \<Rightarrow> getitem_str result ''SPOT''),
      snd (request_with self ''inst_list'' [(''sec_type'', JStr ''SPOT'')] w))"
  by (simp add: get_spot_instruments_def request_with_def new_dict_def Let_def split: prod.splits)

lemma get_open_orders_unfold:
  "get_open_orders self i w =
     (bind_err (fst (request_with self ''user_open_orders'' [(''inst_id'', JInt i)] w))
        (\<lambda>result. getitem_str result ''orders''),
      snd (request_with self ''user_open_orders'' [(''inst_id'', JInt i)] w))"
  by (simp add: get_open_orders_def request_with_def new_dict_def Let_def split: prod.splits)

lemma get_spot_inst_id_snd:
  "snd (get_spot_inst_id self pair w) =
     snd (request_with self ''inst_list'' [(''sec_type'', JStr ''SPOT'')] w)"
  by (simp add: get_spot_inst_id_def get_spot_instruments_unfold split: prod.splits)



text \<open>
  C5. \<^verbatim>\<open>get_spot_instruments\<close> posts one request. When the response is an object
  with the key \<^verbatim>\<open>SPOT\<close>: without a pair, the result is the value under \<^verbatim>\<open>SPOT\<close> as it
  is; with a pair, the value under \<^verbatim>\<open>SPOT\<close> is an object that lists the instruments of
  each pair, and the result is the first instrument listed under the pair.
\<close>

theorem get_spot_instruments_result:
  "get_spot_instruments self pair w = (res, w') \<Longrightarrow>
     (\<exists>rq. sent w' = sent w @ [rq] \<and>
        (\<forall>d spot. server w (sent w') = Json_body (JDict d) \<and> dict_get d ''SPOT'' = Some spot \<longrightarrow>
           (pair = None \<longrightarrow> res = Inr spot) \<and>
           (\<forall>p sd x xs. pair = Some p \<and> spot = JDict sd \<and> dict_get sd p = Some (JList (x # xs))
              \<longrightarrow> res = Inr x)))"
proof -
  assume r: "get_spot_instruments self pair w = (res, w')"
  let ?rw = "request_with self ''inst_list'' [(''sec_type'', JStr ''SPOT'')] w"
  obtain rq where s: "sent (snd ?rw) = sent w @ [rq]"
    and f: "fst ?rw = reply_result (server w (sent w @ [rq]))"
    using request_with_sent[of self "''inst_list''" "[(''sec_type'', JStr ''SPOT'')]" w] by blast
  have w': "w' = snd ?rw" using r by (simp add: get_spot_instruments_unfold)
  have res: "res = bind_err (fst ?rw)
        (\<lambda>result. case pair of
            Some p \<Rightarrow>
              bind_err (getitem_str result ''SPOT'') (\<lambda>spot.
              bind_err (getitem_str spot p) (\<lambda>insts. getitem_int insts 0))
          | None \<Rightarrow> getitem_str result ''SPOT'')"
    using r by (simp add: get_spot_instruments_unfold)
  have sw: "sent w' = sent w @ [rq]" using s w' by simp
  have "(pair = None \<longrightarrow> res = Inr spot) \<and>
        (\<forall>p sd x xs. pair = Some p \<and> spot = JDict sd \<and> dict_get sd p = Some (JList (x # xs))
              \<longrightarrow> res = Inr x)"
    if "server w (sent w') = Json_body (JDict d) \<and> dict_get d ''SPOT'' = Some spot" for d spot
  proof -
    have "fst ?rw = Inr (JDict d)" using that f sw by (simp add: reply_result_def)
    then show ?thesis using that
      by (auto simp: res bind_err_def list_index_def)
  qed
  then show ?thesis using sw by blast
qed

theorem get_spot_instruments_result_witness:
  "get_spot_instruments (CoinutAPI None None) (Some ''LTCBTC'') spot_world
     = (fst (get_spot_instruments (CoinutAPI None None) (Some ''LTCBTC'') spot_world),
        snd (get_spot_instruments (CoinutAPI None None) (Some ''LTCBTC'') spot_world)) \<and>
   server spot_world (sent (snd (get_spot_instruments (CoinutAPI None None) (Some ''LTCBTC'') spot_world)))
     = Json_body (JDict [(''SPOT'', JDict [(''LTCBTC'', JList [JDict [(''inst_id'', JInt 1)]])])]) \<and>
   fst (get_spot_instruments (CoinutAPI None None) (Some ''LTCBTC'') spot_world)
     = Inr (JDict [(''inst_id'', JInt 1)])"
proof -
  let ?self = "CoinutAPI None None"
  let ?r = "get_spot_instruments ?self (Some ''LTCBTC'') spot_world"
  let ?sd = "[(''LTCBTC'', JList [JDict [(''inst_id'', JInt 1)]])]"
  have p: "?r = (fst ?r, snd ?r)" by simp
  have sv: "server spot_world h = Json_body (JDict [(''SPOT'', JDict ?sd)])" for h
    by (simp add: spot_world_def init_world_def)
  from get_spot_instruments_result[OF p] obtain rq where
    a: "\<forall>d spot. server spot_world (sent (snd ?r)) = Json_body (JDict d) \<and>
          dict_get d ''SPOT'' = Some spot \<longrightarrow>
           (\<forall>p sd x xs. Some ''LTCBTC'' = Some p \<and> spot = JDict sd \<and>
              dict_get sd p = Some (JList (x # xs)) \<longrightarrow> fst ?r = Inr x)"
    by blast
  have "server spot_world (sent (snd ?r)) = Json_body (JDict [(''SPOT'', JDict ?sd)]) \<and>
      dict_get [(''SPOT'', JDict ?sd)] ''SPOT'' = Some (JDict ?sd)"
    by (simp add: sv dict_get_def)
  with a have "\<forall>p sd x xs. Some ''LTCBTC'' = Some p \<and> JDict ?sd = JDict sd \<and>
              dict_get sd p = Some (JList (x # xs)) \<longrightarrow> fst ?r = Inr x"
    by blast
  moreover have "Some ''LTCBTC'' = Some ''LTCBTC'' \<and> JDict ?sd = JDict ?sd \<and>
      dict_get ?sd ''LTCBTC'' = Some (JList (JDict [(''inst_id'', JInt 1)] # []))"
    by (simp add: dict_get_def)
  ultimately have "fst ?r = Inr (JDict [(''inst_id'', JInt 1)])" by blast
  then show ?thesis using p sv by simp
qed


section \<open>The serialisation is a JSON text\<close>

lemma hex_char_is_hex: "d < 16 \<Longrightarrow> is_hex (hex_char d)"
proof -
  assume "d < 16"
  then have "hex_char d \<in> set ''0123456789abcdef''" by (rule hex_char_lower)
  then show ?thesis by (auto simp: is_hex_def)
qed

lemma zero_is_hex: "is_hex CHR ''0''"
  by (simp add: is_hex_def)

lemma escape_char_chars: "json_chars s \<Longrightarrow> json_chars (escape_char c @ s)"
proof -
  assume s: "json_chars s"
  have esc: "json_chars (CHR 0x5C # e # s)"
    if "e \<in> set [CHR 0x22, CHR 0x5C, CHR ''/'', CHR ''b'', CHR ''f'', CHR ''n'', CHR ''r'', CHR ''t'']"
    for e using that s by (rule chars_escape)
  have "(of_char c :: nat) < 16 * 16" using of_char_less_256[of c] by simp
  then have hi: "(of_char c :: nat) div 16 < 16" by (rule less_mult_imp_div_less)
  have lo: "(of_char c :: nat) mod 16 < 16" by simp
  have uni: "json_chars (CHR 0x5C # CHR ''u'' # CHR ''0'' # CHR ''0'' #
      hex_char (of_char c div 16) # hex_char (of_char c mod 16) # s)"
    by (intro chars_unicode zero_is_hex hex_char_is_hex hi lo s)
  have plain: "json_chars (c # s)"
    if "32 \<le> (of_char c :: nat)" "c \<noteq> CHR 0x22" "c \<noteq> CHR 0x5C"
    using that s by (rule chars_plain)
  show ?thesis
    unfolding escape_char_def using esc uni plain by simp
qed

lemma concat_escape_chars: "json_chars (concat (map escape_char s))"
  by (induction s) (simp_all add: chars_end escape_char_chars)

lemma dumps_str_string: "json_string (dumps_str s)"
  unfolding dumps_str_def by (rule json_string.intros) (rule concat_escape_chars)

lemma digit_char_nonzero: "0 < d \<Longrightarrow> d < 10 \<Longrightarrow> digit_char d \<noteq> CHR ''0''"
proof -
  assume d: "0 < d" "d < 10"
  have "distinct ''0123456789''" by simp
  then have "(''0123456789'' ! d = ''0123456789'' ! 0) = (d = 0)"
    by (rule nth_eq_iff_index_eq) (use d in simp_all)
  then show ?thesis using d by (simp add: digit_char_def)
qed

lemma show_nat_head: "0 < n \<Longrightarrow> take 1 (show_nat n) \<noteq> ''0''"
proof (induction n rule: show_nat.induct)
  case (1 n)
  show ?case
  proof (cases "n < 10")
    case True
    then show ?thesis using 1(2) by (simp add: show_nat_small digit_char_nonzero)
  next
    case False
    then have ge: "10 \<le> n" by simp
    then have "0 < n div 10" by (simp add: div_greater_zero_iff)
    then have h: "take 1 (show_nat (n div 10)) \<noteq> ''0''" using 1(1)[OF False] by simp
    obtain a l where al: "show_nat (n div 10) = a # l"
      using show_nat_nonempty[of "n div 10"] by (cases "show_nat (n div 10)") auto
    have "a \<noteq> CHR ''0''" using h by (simp add: al)
    then show ?thesis by (simp add: show_nat_large[OF ge] al)
  qed
qed

lemma show_nat_int: "json_int (show_nat n)"
proof (cases "n = 0")
  case True
  then show ?thesis by (simp add: json_int_def show_nat_small digit_char_def)
next
  case False
  then have "0 < n" by simp
  then have "take 1 (show_nat n) \<noteq> ''0''" by (rule show_nat_head)
  moreover have "take 1 (show_nat n) \<noteq> []" using show_nat_nonempty[of n] by simp
  ultimately show ?thesis by (simp add: json_int_def show_nat_digits)
qed

lemma str_int_number: "json_number (str_int i)"
proof (cases "i < 0")
  case True
  have "json_number (''-'' @ show_nat (nat (- i)) @ [] @ [])"
    by (rule json_number.intros) (simp_all add: show_nat_int no_frac no_exp)
  then show ?thesis using True by (simp add: str_int_def)
next
  case False
  have "json_number ([] @ show_nat (nat i) @ [] @ [])"
    by (rule json_number.intros) (simp_all add: show_nat_int no_frac no_exp)
  then show ?thesis using False by (simp add: str_int_def)
qed

lemma ws_empty: "json_ws []" and ws_space: "json_ws '' ''"
  by (simp_all add: json_ws_def)

lemma value_element: "json_value v \<Longrightarrow> json_element v"
  using element[OF ws_empty _ ws_empty, of v] by simp

lemma value_element_space: "json_value v \<Longrightarrow> json_element (CHR '' '' # v)"
  using element[OF ws_space _ ws_empty, of v] by simp

lemma join_elements:
  "xs \<noteq> [] \<Longrightarrow> list_all json_value xs \<Longrightarrow>
     json_elements (join_sep '', '' xs) \<and> json_elements (CHR '' '' # join_sep '', '' xs)"
proof (induction "'', ''" xs rule: join_sep.induct)
  case 1
  then show ?case by simp
next
  case (2 x)
  then have x: "json_value x" by simp
  have "json_elements x" by (rule one_element[OF value_element[OF x]])
  moreover have "json_elements (CHR '' '' # x)" by (rule one_element[OF value_element_space[OF x]])
  ultimately show ?case by simp
next
  case (3 x y ys)
  then have r: "json_elements (CHR '' '' # join_sep '', '' (y # ys))" and x: "json_value x"
    by simp_all
  have "json_elements (x @ '','' @ CHR '' '' # join_sep '', '' (y # ys))"
    by (rule more_elements[OF value_element[OF x] r])
  moreover have "json_elements ((CHR '' '' # x) @ '','' @ CHR '' '' # join_sep '', '' (y # ys))"
    by (rule more_elements[OF value_element_space[OF x] r])
  ultimately show ?case by simp
qed

lemma member_intro:
  "json_value v \<Longrightarrow> json_member (dumps_str k @ '': '' @ v)"
  using member[OF ws_empty dumps_str_string ws_empty value_element_space, of v k] by simp

lemma member_intro_space:
  "json_value v \<Longrightarrow> json_member (CHR '' '' # dumps_str k @ '': '' @ v)"
  using member[OF ws_space dumps_str_string ws_empty value_element_space, of v k] by simp

lemma join_members:
  "kvs \<noteq> [] \<Longrightarrow> list_all (\<lambda>(k, t). json_value t) kvs \<Longrightarrow>
     json_members (join_sep '', '' (map (\<lambda>(k, t). dumps_str k @ '': '' @ t) kvs)) \<and>
     json_members (CHR '' '' # join_sep '', '' (map (\<lambda>(k, t). dumps_str k @ '': '' @ t) kvs))"
proof (induction kvs rule: induct_list012)
  case 1
  then show ?case by simp
next
  case (2 kv)
  obtain k t where kv: "kv = (k, t)" by (cases kv)
  have t: "json_value t" using 2 kv by simp
  have "json_members (dumps_str k @ '': '' @ t)"
    by (rule one_member[OF member_intro[OF t]])
  moreover have "json_members (CHR '' '' # dumps_str k @ '': '' @ t)"
    by (rule one_member[OF member_intro_space[OF t]])
  ultimately show ?case by (simp add: kv)
next
  case (3 kv kv' kvs)
  obtain k t where kv: "kv = (k, t)" by (cases kv)
  let ?rest = "join_sep '', '' (map (\<lambda>(k, t). dumps_str k @ '': '' @ t) (kv' # kvs))"
  have r: "json_members (CHR '' '' # ?rest)" and t: "json_value t"
    using 3 kv by simp_all
  have "json_members ((dumps_str k @ '': '' @ t) @ '','' @ CHR '' '' # ?rest)"
    by (rule more_members[OF member_intro[OF t] r])
  moreover have "json_members ((CHR '' '' # dumps_str k @ '': '' @ t) @ '','' @ CHR '' '' # ?rest)"
    by (rule more_members[OF member_intro_space[OF t] r])
  ultimately show ?case by (simp add: kv)
qed

lemma json_dumps_value: "json_value (json_dumps v)"
proof (induction v)
  case JNull
  show ?case by (simp add: null)
next
  case (JBool b)
  show ?case by (simp add: true false)
next
  case (JInt i)
  show ?case by (simp add: num str_int_number)
next
  case (JStr s)
  show ?case by (simp add: str dumps_str_string)
next
  case (JList xs)
  show ?case
  proof (cases "xs = []")
    case True
    then show ?thesis using empty_array[OF ws_empty] by simp
  next
    case False
    have "list_all json_value (map json_dumps xs)"
      using JList by (simp add: list_all_iff)
    then have "json_elements (join_sep '', '' (map json_dumps xs))"
      using False join_elements[of "map json_dumps xs"] by simp
    then show ?thesis using array by simp
  qed
next
  case (JDict kvs)
  show ?case
  proof (cases "kvs = []")
    case True
    then show ?thesis using empty_object[OF ws_empty] by simp
  next
    case False
    have "list_all (\<lambda>(k, t). json_value t) (map (map_prod id json_dumps) kvs)"
      using JDict by (auto simp: list_all_iff)
    then have "json_members (join_sep '', ''
        (map (\<lambda>(k, t). dumps_str k @ '': '' @ t) (map (map_prod id json_dumps) kvs)))"
      using False join_members[of "map (map_prod id json_dumps) kvs"] by simp
    then show ?thesis using object by simp
  qed
qed

section \<open>Every public operation\<close>

lemma count_list_distinct: "distinct xs \<Longrightarrow> x \<in> set xs \<Longrightarrow> count_list xs x = 1"
  by (induction xs) auto

lemma dict_get_key: "dict_get d k = Some v \<Longrightarrow> k \<in> set (dict_keys d)"
proof -
  assume "dict_get d k = Some v"
  then have "(k, v) \<in> set d" unfolding dict_get_def by (rule map_of_SomeD)
  then have "fst (k, v) \<in> fst ` set d" by (rule imageI)
  then show ?thesis by (simp add: dict_keys_def)
qed

lemma wf_dict_count: "wf_dict d \<Longrightarrow> dict_get d k = Some v \<Longrightarrow> count_list (dict_keys d) k = 1"
  using count_list_distinct[of "dict_keys d" k] dict_get_key[of d k v]
  by (simp add: wf_dict_def)

lemma nonce_of_draw: "nonce_of w = 1 + int (rand_draws w (rand_used w) mod 4294967290)"
  by (simp add: nonce_of_def randint_def)


lemma envelope_posted:
  assumes "wf_dict (heap w a)"
  shows "envelope api (nonce_of w) (json_dumps (JDict (posted_content w a api)))"
proof -
  let ?d = "posted_content w a api"
  have wf: "wf_dict ?d" using assms by (rule posted_content_wf)
  have r: "dict_get ?d ''request'' = Some (JStr api)" by (simp add: posted_content_get)
  have n: "dict_get ?d ''nonce'' = Some (JInt (nonce_of w))" by (simp add: posted_content_get)
  show ?thesis
    unfolding envelope_def
    using wf r n wf_dict_count[OF wf r] wf_dict_count[OF wf n] by blast
qed

lemma request_envelope:
  assumes "wf_dict (heap w (content_addr content))"
  shows "\<exists>rq. sent (snd (request self api content w)) = sent w @ [rq] \<and>
           envelope api (nonce_of w) (data rq)"
  using envelope_posted[OF assms, of api]
  by (simp add: request_sent posted_request_sel del: json_dumps.simps)

lemma request_with_envelope:
  assumes "wf_dict d"
  shows "\<exists>rq. sent (snd (request_with self api d w)) = sent w @ [rq] \<and>
           envelope api (nonce_of w) (data rq)"
proof -
  let ?w1 = "snd (new_dict d w)"
  have "wf_dict (heap ?w1 (content_addr (Some (next_addr w))))"
    using assms by (simp add: new_dict_sel content_addr_def)
  from request_envelope[OF this, of self api]
  show ?thesis by (simp add: request_with_def new_dict_sel nonce_of_new_dict)
qed

lemma request_with_frame:
  "rand_used (snd (request_with self api d w)) = Suc (rand_used w)"
  "rand_draws (snd (request_with self api d w)) = rand_draws w"
  "next_addr (snd (request_with self api d w)) = Suc (next_addr w)"
  "a \<noteq> next_addr w \<Longrightarrow> heap (snd (request_with self api d w)) a = heap w a"
  by (simp_all add: request_with_def request_rand_used request_frame request_heap new_dict_sel
      content_addr_def)

lemma create_new_order_frame:
  "sent (snd (create_new_order i s q p c w)) = sent w"
  "heap (snd (create_new_order i s q p c w)) = heap w"
  "next_addr (snd (create_new_order i s q p c w)) = next_addr w"
  "rand_draws (snd (create_new_order i s q p c w)) = rand_draws w"
  "rand_used w \<le> rand_used (snd (create_new_order i s q p c w))"
  by (simp_all add: create_new_order_snd randint_world split: option.splits)

lemma create_new_order_wf: "wf_dict (fst (create_new_order i s q p c w))"
  by (simp add: create_new_order_fst wf_dict_def dict_keys_def split: option.splits)

text \<open>
  Every operation but \<^verbatim>\<open>get_balance\<close> and the builder passes a new dictionary to
  \<^verbatim>\<open>request\<close>, in a world that differs from the given one at most by a random draw.
\<close>

lemma exec_request_with:
  assumes "request_name c = Some api" and "c \<noteq> Get_balance"
  shows "\<exists>d w1. snd (exec self c w) = snd (request_with self api d w1) \<and> wf_dict d \<and>
           sent w1 = sent w \<and> heap w1 = heap w \<and> next_addr w1 = next_addr w \<and>
           rand_draws w1 = rand_draws w \<and> rand_used w \<le> rand_used w1"
proof (cases c)
  case Get_balance
  then show ?thesis using assms by simp
next
  case (Get_spot_instruments pair)
  have "wf_dict [(''sec_type'', JStr ''SPOT'')]" by (simp add: wf_dict_def dict_keys_def)
  then show ?thesis using assms Get_spot_instruments
    by (auto simp: get_spot_instruments_unfold intro!: exI[of _ w])
next
  case (Get_spot_inst_id pair)
  have "wf_dict [(''sec_type'', JStr ''SPOT'')]" by (simp add: wf_dict_def dict_keys_def)
  then show ?thesis using assms Get_spot_inst_id
    by (auto simp: get_spot_inst_id_snd intro!: exI[of _ w])
next
  case (Get_inst_tick i)
  have "wf_dict [(''inst_id'', JInt i)]" by (simp add: wf_dict_def dict_keys_def)
  then show ?thesis using assms Get_inst_tick
    by (auto simp: wrappers_request_with intro!: exI[of _ w])
next
  case (Get_orderbook i)
  have "wf_dict [(''inst_id'', JInt i)]" by (simp add: wf_dict_def dict_keys_def)
  then show ?thesis using assms Get_orderbook
    by (auto simp: wrappers_request_with intro!: exI[of _ w])
next
  case (Get_open_orders i)
  have "wf_dict [(''inst_id'', JInt i)]" by (simp add: wf_dict_def dict_keys_def)
  then show ?thesis using assms Get_open_orders
    by (auto simp: get_open_orders_unfold intro!: exI[of _ w])
next
  case (Create_new_order i s q p cid)
  then show ?thesis using assms by simp
next
  case (Submit_new_order i s q p cid)
  show ?thesis
    using assms Submit_new_order
    by (auto simp: wrappers_request_with create_new_order_wf create_new_order_frame
        intro!: exI[of _ "fst (create_new_order i s q p cid w)"]
                exI[of _ "snd (create_new_order i s q p cid w)"])
next
  case (Submit_new_orders ords)
  have "wf_dict [(''orders'', JList ords)]" by (simp add: wf_dict_def dict_keys_def)
  then show ?thesis using assms Submit_new_orders
    by (auto simp: wrappers_request_with intro!: exI[of _ w])
next
  case (Cancel_order i x)
  have "wf_dict [(''inst_id'', JInt i), (''order_id'', JInt x)]"
    by (simp add: wf_dict_def dict_keys_def)
  then show ?thesis using assms Cancel_order
    by (auto simp: wrappers_request_with intro!: exI[of _ w])
next
  case (Cancel_orders i xs)
  have "wf_dict [(''entries'', JList (map (\<lambda>x. JDict [(''inst_id'', JInt i), (''order_id'', JInt x)]) xs))]"
    by (simp add: wf_dict_def dict_keys_def)
  then show ?thesis using assms Cancel_orders
    by (auto simp: wrappers_request_with intro!: exI[of _ w])
qed

lemma exec_posts:
  assumes "wf_world w" and "request_name c = Some api"
  shows "\<exists>rq. sent (snd (exec self c w)) = sent w @ [rq] \<and>
           envelope api (1 + int (rand_draws w (rand_used (snd (exec self c w)) - 1) mod 4294967290))
             (data rq) \<and>
           rand_used w < rand_used (snd (exec self c w))"
proof (cases "c = Get_balance")
  case True
  have wf: "wf_dict (heap w (content_addr None))"
    using assms(1) by (simp add: wf_world_def content_addr_def)
  have api: "api = ''user_balance''" using assms(2) True by simp
  show ?thesis
    using request_envelope[OF wf, of self api]
    by (simp add: True api get_balance_def request_rand_used nonce_of_draw)
next
  case False
  obtain d w1 where e: "snd (exec self c w) = snd (request_with self api d w1)"
    and wf: "wf_dict d" and s: "sent w1 = sent w" and rd: "rand_draws w1 = rand_draws w"
    and ru: "rand_used w \<le> rand_used w1"
    using exec_request_with[OF assms(2) False, of self w] by blast
  show ?thesis
    using request_with_envelope[OF wf, of self api w1] ru
    by (simp add: e s rd request_with_frame nonce_of_draw)
qed

lemma exec_silent: "request_name c = None \<Longrightarrow> sent (snd (exec self c w)) = sent w"
  by (cases c) (simp_all add: create_new_order_frame case_prod_beta)

lemma exec_rand_draws: "rand_draws (snd (exec self c w)) = rand_draws w"
proof (cases "request_name c")
  case None
  then show ?thesis by (cases c) (simp_all add: create_new_order_frame case_prod_beta)
next
  case (Some api)
  show ?thesis
  proof (cases "c = Get_balance")
    case True
    then show ?thesis by (simp add: get_balance_def request_frame)
  next
    case False
    then show ?thesis
      using exec_request_with[OF Some False, of self w] by (auto simp: request_with_frame)
  qed
qed

lemma exec_wf_world: "wf_world w \<Longrightarrow> wf_world (snd (exec self c w))"
proof -
  assume wf: "wf_world w"
  show ?thesis
  proof (cases "request_name c")
    case None
    then show ?thesis using wf
      by (cases c) (simp_all add: wf_world_def create_new_order_frame case_prod_beta)
  next
    case (Some api)
    show ?thesis
    proof (cases "c = Get_balance")
      case True
      have "wf_dict (posted_content w default_content ''user_balance'')"
        using wf by (simp add: wf_world_def posted_content_wf)
      then show ?thesis using wf True
        by (simp add: wf_world_def get_balance_def request_heap request_frame content_addr_def)
    next
      case False
      obtain d w1 where e: "snd (exec self c w) = snd (request_with self api d w1)"
        and h: "heap w1 = heap w" and n: "next_addr w1 = next_addr w"
        using exec_request_with[OF Some False, of self w] by blast
      have "default_content \<noteq> next_addr w1" using wf n by (simp add: wf_world_def)
      then show ?thesis using wf h n
        by (simp add: wf_world_def e request_with_frame)
    qed
  qed
qed

lemma run_wf_world: "wf_world w \<Longrightarrow> wf_world (run self cs w)"
  by (induction cs arbitrary: w) (simp_all add: exec_wf_world)

lemma run_rand_draws: "rand_draws (run self cs w) = rand_draws w"
  by (induction cs arbitrary: w) (simp_all add: exec_rand_draws)



end
